theory Spec2Isabelle
  imports Complex_Main "HOL-Library.Word" "HOL-Library.Sublist" "HOL-Library.Multiset"
    "HOL-Library.AList"
begin

section \<open>Go values used by the program\<close>

type_synonym int64 = "64 word"
type_synonym uint32 = "32 word"

text \<open>A Go \<^verbatim>\<open>error\<close> value is only ever printed by this program, so it is its message.\<close>

datatype error = Error string

fun errorMessage :: "error \<Rightarrow> string" where
  "errorMessage (Error m) = m"

definition nl :: string where
  "nl = [CHR 0x0A]"

definition tab :: string where
  "tab = [CHR 0x09]"

definition quote :: string where
  "quote = [CHR 0x27]"

text \<open>The verb \<^verbatim>\<open>%d\<close> of package fmt: decimal digits, with a sign for negative values.\<close>

fun showNat :: "nat \<Rightarrow> string" where
  "showNat n =
     (if n < 10 then [''0123456789'' ! n]
      else showNat (n div 10) @ [''0123456789'' ! (n mod 10)])"

declare showNat.simps [simp del]

definition showInt :: "int \<Rightarrow> string" where
  "showInt i = (if i < 0 then ''-'' @ showNat (nat (- i)) else showNat (nat i))"

section \<open>Data model\<close>

record DiscoveryResult =
  DeviceID :: string
  StorageURL :: string

record Recording =
  EpisodesURL :: string
  StartTime :: int64
  Category :: string
  Title :: string
  SeriesID :: string

record SeriesStat =
  Title :: string
  Count :: uint32
  TotalSize :: int64
  EpisodesURLs :: "string list"

record Episode =
  PlayURL :: string
  CmdURL :: string

text \<open>
  A Go \<^verbatim>\<open>map[string]*SeriesStat\<close> is an association list with distinct keys. Every key
  owns its own \<^verbatim>\<open>SeriesStat\<close> object (each one is allocated when its key is first
  seen), so the pointers never alias across keys and the list holds the objects' values.
\<close>

type_synonym seriesMap = "(string \<times> SeriesStat) list"

section \<open>The environment: network, decoders, runtime library\<close>

datatype Method = GET | HEAD | POST

text \<open>\<^verbatim>\<open>time.Duration\<close> counts nanoseconds; a \<^verbatim>\<open>Timeout\<close> of zero means no timeout.\<close>

definition Second :: int where
  "Second = 1000000000"

record Client =
  Timeout :: int

definition DefaultClient :: Client where
  "DefaultClient = \<lparr>Timeout = 0\<rparr>"

record Request =
  Method :: Method
  URL :: string
  ClientTimeout :: int

text \<open>
  Of a \<^verbatim>\<open>http.Response\<close> the program reads the status code, the content length and the
  body; \<open>Body\<close> is what \<^verbatim>\<open>io.ReadAll(resp.Body)\<close> returns.
\<close>

record Response =
  StatusCode :: int
  ContentLength :: int64
  Body :: "error + string"

text \<open>
  Everything the program takes from outside its own source is a field of \<open>Env\<close>:
  the device's answer to each request (\<open>roundTrip\<close>, \<open>Inl\<close> when the transport fails),
  \<^verbatim>\<open>json.Unmarshal\<close> at the three types it is used at, the order in which \<^verbatim>\<open>range\<close>
  visits a map, \<^verbatim>\<open>slices.SortFunc\<close>, and the formatting done by a
  \<^verbatim>\<open>tabwriter.Writer\<close> (with its five numeric settings) when it is flushed.
  The answers of the device are fixed for the duration of one run.
\<close>

record Env =
  roundTrip :: "Request \<Rightarrow> error + Response"
  unmarshalDiscovery :: "string \<Rightarrow> error + DiscoveryResult"
  unmarshalRecordings :: "string \<Rightarrow> error + Recording list"
  unmarshalEpisodes :: "string \<Rightarrow> error + Episode list"
  mapRange :: "seriesMap \<Rightarrow> seriesMap"
  sortFunc :: "(SeriesStat \<Rightarrow> SeriesStat \<Rightarrow> int) \<Rightarrow> SeriesStat list \<Rightarrow> SeriesStat list"
  tabwriter :: "nat \<Rightarrow> nat \<Rightarrow> nat \<Rightarrow> char \<Rightarrow> nat \<Rightarrow> string \<Rightarrow> string"

text \<open>
  What a run does to the outside: the HTTP requests it issued and the texts it wrote to
  standard output, both oldest first.
\<close>

record World =
  requests :: "Request list"
  stdout :: "string list"

definition emptyWorld :: World where
  "emptyWorld = \<lparr>requests = [], stdout = []\<rparr>"

definition writeOut :: "string \<Rightarrow> World \<Rightarrow> World" where
  "writeOut s w = w\<lparr>stdout := stdout w @ [s]\<rparr>"

definition Println :: "string \<Rightarrow> World \<Rightarrow> World" where
  "Println s w = writeOut (s @ nl) w"

text \<open>\<^verbatim>\<open>os.Exit\<close> ends the process; a function that may call it returns an outcome.\<close>

datatype 'a outcome = Exit int | Return 'a

definition Client_Do :: "Env \<Rightarrow> Client \<Rightarrow> Method \<Rightarrow> string \<Rightarrow> World \<Rightarrow> (error + Response) \<times> World" where
  "Client_Do env client m url w =
     (let req = \<lparr>Method = m, URL = url, ClientTimeout = Timeout client\<rparr>
      in (roundTrip env req, w\<lparr>requests := requests w @ [req]\<rparr>))"

definition Client_Get :: "Env \<Rightarrow> Client \<Rightarrow> string \<Rightarrow> World \<Rightarrow> (error + Response) \<times> World" where
  "Client_Get env client url w = Client_Do env client GET url w"

definition Client_Head :: "Env \<Rightarrow> Client \<Rightarrow> string \<Rightarrow> World \<Rightarrow> (error + Response) \<times> World" where
  "Client_Head env client url w = Client_Do env client HEAD url w"

text \<open>
  \<^verbatim>\<open>http.Get\<close> is \<^verbatim>\<open>DefaultClient.Get\<close>. One call of \<^verbatim>\<open>Get\<close> or \<^verbatim>\<open>Head\<close> is one
  entry of the log, with the method, the URL and the timeout of the client it went
  through; \<open>roundTrip\<close> gives the response the call ends with.
\<close>

definition http_Get :: "Env \<Rightarrow> string \<Rightarrow> World \<Rightarrow> (error + Response) \<times> World" where
  "http_Get env url w = Client_Get env DefaultClient url w"

section \<open>Discovery\<close>

definition getStorageUrl :: "Env \<Rightarrow> World \<Rightarrow> (error + string) \<times> World" where
  "getStorageUrl env w0 =
     (let w1 = Println ''Searching for HDHomeRun devices on the local network...'' w0;
          client = \<lparr>Timeout = 5 * Second\<rparr>;
          (r, w2) = Client_Get env client ''http://hdhomerun.local/discover.json'' w1
      in case r of
           Inl err \<Rightarrow> (Inl (Error (''failed to query discovery API: '' @ errorMessage err)), w2)
         | Inr resp \<Rightarrow>
             if StatusCode resp \<noteq> 200
             then (Inl (Error (''discovery API returned status '' @ showInt (StatusCode resp))), w2)
             else (case Body resp of
                     Inl err \<Rightarrow> (Inl err, w2)
                   | Inr body \<Rightarrow>
                       (case unmarshalDiscovery env body of
                          Inl err \<Rightarrow>
                            (Inl (Error (''failed to parse discovery JSON: '' @ errorMessage err)), w2)
                        | Inr discovery \<Rightarrow> (Inr (StorageURL discovery), w2))))"

definition getStorageUrlOrExit :: "Env \<Rightarrow> World \<Rightarrow> string outcome \<times> World" where
  "getStorageUrlOrExit env w =
     (case getStorageUrl env w of
        (Inl err, w1) \<Rightarrow> (Exit 1, writeOut (''Discovery Error: '' @ errorMessage err @ nl) w1)
      | (Inr ip, w1) \<Rightarrow> (Return ip, w1))"

section \<open>Recording fetch\<close>

definition fetchRecordings :: "Env \<Rightarrow> string \<Rightarrow> World \<Rightarrow> (error + Recording list) \<times> World" where
  "fetchRecordings env recordingsUrl w =
     (let (r, w1) = http_Get env recordingsUrl w
      in case r of
           Inl err \<Rightarrow>
             (Inl (Error (''failed to connect to HDHomeRun DVR engine: '' @ errorMessage err)), w1)
         | Inr resp \<Rightarrow>
             if StatusCode resp \<noteq> 200
             then (Inl (Error (''received non-200 status code: '' @ showInt (StatusCode resp))), w1)
             else (case Body resp of
                     Inl err \<Rightarrow> (Inl err, w1)
                   | Inr body \<Rightarrow>
                       (case unmarshalRecordings env body of
                          Inl err \<Rightarrow> (Inl (Error (''failed to parse JSON: '' @ errorMessage err)), w1)
                        | Inr recordings \<Rightarrow> (Inr recordings, w1))))"

section \<open>Aggregation\<close>

text \<open>
  \<^verbatim>\<open>collectRecordings\<close>: the loop over the recordings, with the map built so far.
  A new key is appended, an existing key is updated in place.
\<close>

fun collectLoop :: "Recording list \<Rightarrow> seriesMap \<Rightarrow> seriesMap" where
  "collectLoop [] seriesMap = seriesMap"
| "collectLoop (r # recordings) seriesMap =
     (let series =
            (case map_of seriesMap (SeriesID r) of
               None \<Rightarrow> \<lparr>Title = Recording.Title r, Count = 0, TotalSize = 0, EpisodesURLs = []\<rparr>
             | Some s \<Rightarrow> s);
          series = series\<lparr>Count := Count series + 1\<rparr>;
          series = series\<lparr>EpisodesURLs := EpisodesURLs series @ [EpisodesURL r]\<rparr>
      in collectLoop recordings (AList.update (SeriesID r) series seriesMap))"

definition collectRecordings :: "Recording list \<Rightarrow> seriesMap" where
  "collectRecordings recordings = collectLoop recordings []"

text \<open>
  One of the two versions of the source has the body of \<^verbatim>\<open>getEpisodes\<close> inline in the
  loop of \<^verbatim>\<open>aggregateStats\<close>, with the same requests and the same errors; only the other
  has \<^verbatim>\<open>deleteSeries\<close>.
\<close>

definition getEpisodes :: "Env \<Rightarrow> string \<Rightarrow> World \<Rightarrow> (error + Episode list) \<times> World" where
  "getEpisodes env url w =
     (let client = \<lparr>Timeout = 5 * Second\<rparr>;
          (r, w1) = Client_Get env client url w
      in case r of
           Inl err \<Rightarrow> (Inl (Error (''Failed to fetch '' @ url @ '': '' @ errorMessage err)), w1)
         | Inr resp \<Rightarrow>
             if StatusCode resp \<noteq> 200
             then (Inl (Error (url @ '' returned status '' @ showInt (StatusCode resp))), w1)
             else (case Body resp of
                     Inl err \<Rightarrow> (Inl err, w1)
                   | Inr body \<Rightarrow>
                       (case unmarshalEpisodes env body of
                          Inl err \<Rightarrow>
                            (Inl (Error (''failed to parse episode JSON: '' @ errorMessage err)), w1)
                        | Inr episodes \<Rightarrow> (Inr episodes, w1))))"

definition getEpisodeSize :: "Env \<Rightarrow> string \<Rightarrow> World \<Rightarrow> (error + int64) \<times> World" where
  "getEpisodeSize env playUrl w =
     (let client = \<lparr>Timeout = 5 * Second\<rparr>;
          (r, w1) = Client_Head env client playUrl w
      in case r of
           Inl err \<Rightarrow> (Inl (Error (''Failed to fetch '' @ playUrl @ '': '' @ errorMessage err)), w1)
         | Inr resp \<Rightarrow>
             if StatusCode resp \<noteq> 200
             then (Inl (Error (playUrl @ '' returned status '' @ showInt (StatusCode resp))), w1)
             else (Inr (ContentLength resp), w1))"

text \<open>
  \<^verbatim>\<open>aggregateStats\<close> mutates the \<^verbatim>\<open>SeriesStat\<close> it is given and returns an error or nil:
  the model returns the error (if any), the object's new value and the world. The inner
  loop runs over the episodes of one list, the outer loop over the series' URLs; a
  \<^verbatim>\<open>return err\<close> leaves both with the sums reached so far.
\<close>

fun sumEpisodes :: "Env \<Rightarrow> Episode list \<Rightarrow> SeriesStat \<Rightarrow> World \<Rightarrow> error option \<times> SeriesStat \<times> World" where
  "sumEpisodes env [] stat w = (None, stat, w)"
| "sumEpisodes env (episode # episodes) stat w =
     (case getEpisodeSize env (PlayURL episode) w of
        (Inl err, w1) \<Rightarrow> (Some err, stat, w1)
      | (Inr sz, w1) \<Rightarrow>
          sumEpisodes env episodes
            (stat\<lparr>Count := Count stat + 1, TotalSize := TotalSize stat + sz\<rparr>) w1)"

fun aggregateURLs :: "Env \<Rightarrow> string list \<Rightarrow> SeriesStat \<Rightarrow> World \<Rightarrow> error option \<times> SeriesStat \<times> World" where
  "aggregateURLs env [] stat w = (None, stat, w)"
| "aggregateURLs env (url # urls) stat w =
     (case getEpisodes env url w of
        (Inl err, w1) \<Rightarrow> (Some err, stat, w1)
      | (Inr episodes, w1) \<Rightarrow>
          (case sumEpisodes env episodes stat w1 of
             (Some err, stat1, w2) \<Rightarrow> (Some err, stat1, w2)
           | (None, stat1, w2) \<Rightarrow> aggregateURLs env urls stat1 w2))"

definition aggregateStats :: "Env \<Rightarrow> SeriesStat \<Rightarrow> World \<Rightarrow> error option \<times> SeriesStat \<times> World" where
  "aggregateStats env stat w =
     (let stat = stat\<lparr>Count := 0\<rparr>;
          stat = stat\<lparr>TotalSize := 0\<rparr>
      in aggregateURLs env (EpisodesURLs stat) stat w)"

text \<open>
  The loop shared by \<^verbatim>\<open>listRecordings\<close> and \<^verbatim>\<open>deleteSeries\<close>:
  \<^verbatim>\<open>for key, stat := range seriesMap { oneMap[key] = stat; aggregateStats(stat) }\<close>.
  \<^verbatim>\<open>oneMap[key]\<close> points to the object that \<^verbatim>\<open>aggregateStats\<close> then mutates, so it
  ends with the aggregated value. The error that \<^verbatim>\<open>aggregateStats\<close> returns is not
  bound to anything by the caller.
\<close>

fun aggregateAll :: "Env \<Rightarrow> seriesMap \<Rightarrow> seriesMap \<Rightarrow> World \<Rightarrow> seriesMap \<times> World" where
  "aggregateAll env [] oneMap w = (oneMap, w)"
| "aggregateAll env ((key, stat) # rest) oneMap w =
     (case aggregateStats env stat w of
        (_, stat1, w1) \<Rightarrow> aggregateAll env rest (AList.update key stat1 oneMap) w1)"

section \<open>Presentation\<close>

text \<open>The comparison function handed to \<^verbatim>\<open>slices.SortFunc\<close>; \<^verbatim>\<open>int64\<close> compares signed.\<close>

definition cmpTotalSize :: "SeriesStat \<Rightarrow> SeriesStat \<Rightarrow> int" where
  "cmpTotalSize a b =
     (if sint (TotalSize a) > sint (TotalSize b) then 1
      else if sint (TotalSize a) < sint (TotalSize b) then - 1
      else 0)"

text \<open>
  \<^verbatim>\<open>float64(stat.TotalSize)\<close> rounds a 64-bit integer to the nearest value with a 53-bit
  significand, ties to even. The result is an integer below \<open>2 ^ 64\<close> in magnitude, so
  the model keeps it as an \<open>int\<close>.
\<close>

fun bitLength :: "nat \<Rightarrow> nat" where
  "bitLength n = (if n = 0 then 0 else Suc (bitLength (n div 2)))"

declare bitLength.simps [simp del]

definition roundHalfEven :: "rat \<Rightarrow> int" where
  "roundHalfEven v =
     (let q = \<lfloor>v\<rfloor>; f = v - of_int q
      in if f > 1 / 2 \<or> (f = 1 / 2 \<and> odd q) then q + 1 else q)"

definition float64 :: "int64 \<Rightarrow> int" where
  "float64 x =
     (let i = sint x; a = nat \<bar>i\<bar>
      in if a < 2 ^ 53 then i
         else (let e = bitLength a - 53
               in sgn i * roundHalfEven (of_nat a / 2 ^ e) * 2 ^ e))"

text \<open>
  Dividing by \<open>1024 * 1024 * 1024 = 2 ^ 30\<close> only lowers the exponent of a binary
  floating-point number, and the quotient of a non-zero 64-bit integer is far above the
  subnormal range: the division is exact, and \<open>sizeGB\<close> is the rational it yields.
\<close>

definition sizeGB :: "SeriesStat \<Rightarrow> rat" where
  "sizeGB stat = of_int (float64 (TotalSize stat)) / (1024 * 1024 * 1024)"

text \<open>
  The verb \<^verbatim>\<open>%.2f\<close>: the exact decimal expansion of the value rounded to two fractional
  digits, ties to even, with a minus sign for a negative value (also when every printed
  digit is zero).
\<close>

definition fmt_2f :: "rat \<Rightarrow> string" where
  "fmt_2f v =
     (let h = nat (roundHalfEven (\<bar>v\<bar> * 100))
      in (if v < 0 then ''-'' else []) @ showNat (h div 100) @ ''.''
           @ showNat (h mod 100 div 10) @ showNat (h mod 10))"

definition tableRow :: "SeriesStat \<Rightarrow> string" where
  "tableRow stat =
     Title stat @ tab @ showNat (unat (Count stat)) @ tab @ fmt_2f (sizeGB stat) @ '' GB'' @ tab @ nl"

text \<open>Steps 1 and 2 of \<^verbatim>\<open>printSeriesMap\<close>: the map's values as a slice, then sorted.\<close>

definition sortedStats :: "Env \<Rightarrow> seriesMap \<Rightarrow> SeriesStat list" where
  "sortedStats env seriesMap =
     (let stats = map snd (mapRange env seriesMap)
      in sortFunc env cmpTotalSize stats)"

definition printSeriesMap :: "Env \<Rightarrow> seriesMap \<Rightarrow> World \<Rightarrow> World" where
  "printSeriesMap env seriesMap w =
     (let stats = sortedStats env seriesMap;
          buf = ''SERIES TITLE'' @ tab @ ''EPISODES'' @ tab @ ''STORAGE USED'' @ tab @ nl;
          buf = buf @ ''------------'' @ tab @ ''--------'' @ tab @ ''------------'' @ tab @ nl;
          buf = buf @ concat (map tableRow stats);
          w1 = writeOut (tabwriter env 0 0 3 CHR '' '' 0 buf) w
      in writeOut (nl @ ''Total Series Found: '' @ showNat (length seriesMap) @ nl) w1)"

section \<open>Commands\<close>

definition listRecordings :: "Env \<Rightarrow> string \<Rightarrow> World \<Rightarrow> World" where
  "listRecordings env recordingsUrl w =
     (case fetchRecordings env recordingsUrl w of
        (Inl err, w1) \<Rightarrow> Println (''Error: '' @ errorMessage err) w1
      | (Inr recordings, w1) \<Rightarrow>
          (let seriesMap = collectRecordings recordings;
               (oneMap, w2) = aggregateAll env (mapRange env seriesMap) [] w1
           in printSeriesMap env oneMap w2))"

text \<open>
  The \<^verbatim>\<open>list\<close> case of \<^verbatim>\<open>main\<close>, after its flag set has parsed the remaining
  arguments.
\<close>

definition mainList :: "Env \<Rightarrow> World \<Rightarrow> unit outcome \<times> World" where
  "mainList env w =
     (case getStorageUrlOrExit env w of
        (Exit code, w1) \<Rightarrow> (Exit code, w1)
      | (Return storageUrl, w1) \<Rightarrow> (Return (), listRecordings env storageUrl w1))"

text \<open>
  The first loop of \<^verbatim>\<open>deleteSeries\<close>, with \<^verbatim>\<open>deleteRecordings\<close> as built so far.
  \<open>None\<close> is the \<^verbatim>\<open>return\<close> inside the loop.
\<close>

fun matchLoop :: "string \<Rightarrow> Recording list \<Rightarrow> Recording list \<Rightarrow> World \<Rightarrow> Recording list option \<times> World" where
  "matchLoop title [] deleteRecordings w = (Some deleteRecordings, w)"
| "matchLoop title (recording # recordings) deleteRecordings w =
     (if prefix title (Recording.Title recording)
      then (if length deleteRecordings > 0
            then (None,
                  writeOut (''More than one title matches '' @ quote @ title @ quote @ '':'' @ nl
                         @ Recording.Title (deleteRecordings ! 0) @ nl
                         @ Recording.Title recording @ nl) w)
            else matchLoop title recordings (deleteRecordings @ [recording]) w)
      else matchLoop title recordings deleteRecordings w)"

definition deleteSeries :: "Env \<Rightarrow> string \<Rightarrow> bool \<Rightarrow> World \<Rightarrow> unit outcome \<times> World" where
  "deleteSeries env title forever w =
     (case getStorageUrlOrExit env w of
        (Exit code, w1) \<Rightarrow> (Exit code, w1)
      | (Return storageUrl, w1) \<Rightarrow>
          (case fetchRecordings env storageUrl w1 of
             (Inl err, w2) \<Rightarrow> (Return (), Println (''Error: '' @ errorMessage err) w2)
           | (Inr recordings, w2) \<Rightarrow>
               (case matchLoop title recordings [] w2 of
                  (None, w3) \<Rightarrow> (Return (), w3)
                | (Some deleteRecordings, w3) \<Rightarrow>
                    if 0 = length deleteRecordings
                    then (Return (),
                          writeOut (''Nothing matches '' @ quote @ title @ quote @ nl) w3)
                    else (let seriesMap = collectRecordings recordings;
                              (oneMap, w4) = aggregateAll env (mapRange env seriesMap) [] w3
                          in (Return (), w4)))))"

section \<open>Auxiliary definitions for the statements\<close>

text \<open>
  What \<^verbatim>\<open>collectRecordings\<close> does to the entry of one key: a fresh entry takes the title of
  the recording that creates it, and every recording of the key adds one to the count and
  its URL to the list.
\<close>

definition addRecordings :: "SeriesStat \<Rightarrow> Recording list \<Rightarrow> SeriesStat" where
  "addRecordings s rs =
     s\<lparr>Count := Count s + of_nat (length rs),
       EpisodesURLs := EpisodesURLs s @ map EpisodesURL rs\<rparr>"

definition newSeries :: "Recording \<Rightarrow> SeriesStat" where
  "newSeries r = \<lparr>Title = Recording.Title r, Count = 0, TotalSize = 0, EpisodesURLs = []\<rparr>"

text \<open>The request that \<^verbatim>\<open>getStorageUrl\<close> issues.\<close>

definition discoverRequest :: Request where
  "discoverRequest =
     \<lparr>Method = GET, URL = ''http://hdhomerun.local/discover.json'', ClientTimeout = 5 * Second\<rparr>"

text \<open>
  What the device holds for a series, read through the program's own two queries: the
  episodes of an episode-list URL (none when \<^verbatim>\<open>getEpisodes\<close> fails on it), the size of a
  play URL (zero when \<^verbatim>\<open>getEpisodeSize\<close> fails on it), and from them the episodes and
  the sizes of all the URLs a \<^verbatim>\<open>SeriesStat\<close> has collected, in the order in which
  \<^verbatim>\<open>aggregateStats\<close> visits them.
\<close>

definition episodesOf :: "Env \<Rightarrow> string \<Rightarrow> Episode list" where
  "episodesOf env url =
     (case fst (getEpisodes env url emptyWorld) of Inl err \<Rightarrow> [] | Inr episodes \<Rightarrow> episodes)"

definition sizeOf :: "Env \<Rightarrow> string \<Rightarrow> int64" where
  "sizeOf env playUrl =
     (case fst (getEpisodeSize env playUrl emptyWorld) of Inl err \<Rightarrow> 0 | Inr n \<Rightarrow> n)"

definition episodesOfURLs :: "Env \<Rightarrow> string list \<Rightarrow> Episode list" where
  "episodesOfURLs env urls = concat (map (episodesOf env) urls)"

definition sizesOf :: "Env \<Rightarrow> Episode list \<Rightarrow> int64 list" where
  "sizesOf env episodes = map (\<lambda>episode. sizeOf env (PlayURL episode)) episodes"

definition seriesEpisodes :: "Env \<Rightarrow> SeriesStat \<Rightarrow> Episode list" where
  "seriesEpisodes env stat = episodesOfURLs env (EpisodesURLs stat)"

definition seriesSizes :: "Env \<Rightarrow> SeriesStat \<Rightarrow> int64 list" where
  "seriesSizes env stat = sizesOf env (seriesEpisodes env stat)"

text \<open>
  \<^verbatim>\<open>slices.IsSortedFunc\<close>, which states the result of \<^verbatim>\<open>slices.SortFunc\<close>: no element
  compares below its predecessor.
\<close>

fun isSortedFunc :: "('a \<Rightarrow> 'a \<Rightarrow> int) \<Rightarrow> 'a list \<Rightarrow> bool" where
  "isSortedFunc cmp [] = True"
| "isSortedFunc cmp [x] = True"
| "isSortedFunc cmp (x # y # ys) = (\<not> cmp y x < 0 \<and> isSortedFunc cmp (y # ys))"

text \<open>The two lines that \<^verbatim>\<open>printSeriesMap\<close> writes above the rows.\<close>

definition tableHeader :: string where
  "tableHeader =
     ''SERIES TITLE'' @ tab @ ''EPISODES'' @ tab @ ''STORAGE USED'' @ tab @ nl
     @ ''------------'' @ tab @ ''--------'' @ tab @ ''------------'' @ tab @ nl"

text \<open>A request that only reads from the device.\<close>

definition readOnly :: "Request \<Rightarrow> bool" where
  "readOnly req = (Method req = GET \<or> Method req = HEAD)"

text \<open>The recordings whose title starts with the prefix given to \<^verbatim>\<open>deleteSeries\<close>.\<close>

definition matching :: "string \<Rightarrow> Recording list \<Rightarrow> Recording list" where
  "matching title recordings = filter (\<lambda>recording. prefix title (Recording.Title recording)) recordings"

subsection \<open>The scenario of the specification\<close>

text \<open>
  Two recordings of series A around one of series B. The device answers with short
  tokens as bodies, and the decoders map each token to the value its JSON text would
  decode to. Series A has the episode lists \<open>/a1\<close> and \<open>/a2\<close> and series B the list
  \<open>/b1\<close>, each with one episode; the three content lengths are parameters. A response
  without a \<^verbatim>\<open>Content-Length\<close> header has the content length \<open>- 1\<close>.
\<close>

definition scenarioRecordings :: "Recording list" where
  "scenarioRecordings =
     [\<lparr>EpisodesURL = ''/a1'', StartTime = 100, Category = ''series'',
        Recording.Title = ''Alpha'', SeriesID = ''A''\<rparr>,
      \<lparr>EpisodesURL = ''/b1'', StartTime = 200, Category = ''series'',
        Recording.Title = ''Beta'', SeriesID = ''B''\<rparr>,
      \<lparr>EpisodesURL = ''/a2'', StartTime = 300, Category = ''series'',
        Recording.Title = ''Alpha II'', SeriesID = ''A''\<rparr>]"

definition okResponse :: "int64 \<Rightarrow> string \<Rightarrow> Response" where
  "okResponse n body = \<lparr>StatusCode = 200, ContentLength = n, Body = Inr body\<rparr>"

definition sizedDevice :: "int64 \<Rightarrow> int64 \<Rightarrow> int64 \<Rightarrow> Request \<Rightarrow> error + Response" where
  "sizedDevice a1 a2 b1 req =
     (if Method req = GET \<and> URL req = ''http://hdhomerun.local/discover.json''
      then Inr (okResponse (- 1) ''discover'')
      else if Method req = GET \<and> URL req = ''http://10.0.0.5:80''
      then Inr (okResponse (- 1) ''recordings'')
      else if Method req = GET \<and> URL req = ''/a1'' then Inr (okResponse (- 1) ''a1'')
      else if Method req = GET \<and> URL req = ''/a2'' then Inr (okResponse (- 1) ''a2'')
      else if Method req = GET \<and> URL req = ''/b1'' then Inr (okResponse (- 1) ''b1'')
      else if Method req = HEAD \<and> URL req = ''/play/a1'' then Inr (okResponse a1 [])
      else if Method req = HEAD \<and> URL req = ''/play/a2'' then Inr (okResponse a2 [])
      else if Method req = HEAD \<and> URL req = ''/play/b1'' then Inr (okResponse b1 [])
      else Inl (Error ''no route to host''))"

definition scenarioDiscovery :: "string \<Rightarrow> error + DiscoveryResult" where
  "scenarioDiscovery body =
     (if body = ''discover'' then Inr \<lparr>DeviceID = ''1234ABCD'', StorageURL = ''http://10.0.0.5:80''\<rparr>
      else Inl (Error ''unexpected end of JSON input''))"

definition scenarioUnmarshalRecordings :: "string \<Rightarrow> error + Recording list" where
  "scenarioUnmarshalRecordings body =
     (if body = ''recordings'' then Inr scenarioRecordings
      else Inl (Error ''unexpected end of JSON input''))"

definition scenarioUnmarshalEpisodes :: "string \<Rightarrow> error + Episode list" where
  "scenarioUnmarshalEpisodes body =
     (if body = ''a1'' then Inr [\<lparr>PlayURL = ''/play/a1'', CmdURL = ''/cmd/a1''\<rparr>]
      else if body = ''a2'' then Inr [\<lparr>PlayURL = ''/play/a2'', CmdURL = ''/cmd/a2''\<rparr>]
      else if body = ''b1'' then Inr [\<lparr>PlayURL = ''/play/b1'', CmdURL = ''/cmd/b1''\<rparr>]
      else Inl (Error ''unexpected end of JSON input''))"

text \<open>
  Insertion sort stands for \<^verbatim>\<open>slices.SortFunc\<close> in the scenario, the identity for the
  order of \<^verbatim>\<open>range\<close> and for the alignment done by the \<^verbatim>\<open>tabwriter.Writer\<close>.
\<close>

fun insertBy :: "('a \<Rightarrow> 'a \<Rightarrow> int) \<Rightarrow> 'a \<Rightarrow> 'a list \<Rightarrow> 'a list" where
  "insertBy cmp x [] = [x]"
| "insertBy cmp x (y # ys) = (if cmp x y < 0 then x # y # ys else y # insertBy cmp x ys)"

definition insertionSort :: "('a \<Rightarrow> 'a \<Rightarrow> int) \<Rightarrow> 'a list \<Rightarrow> 'a list" where
  "insertionSort cmp xs = foldr (insertBy cmp) xs []"

definition deviceEnv :: "(Request \<Rightarrow> error + Response) \<Rightarrow> Env" where
  "deviceEnv device =
     \<lparr>roundTrip = device,
      unmarshalDiscovery = scenarioDiscovery,
      unmarshalRecordings = scenarioUnmarshalRecordings,
      unmarshalEpisodes = scenarioUnmarshalEpisodes,
      mapRange = (\<lambda>m. m),
      sortFunc = insertionSort,
      tabwriter = (\<lambda>minwidth tabwidth padding padchar flags buf. buf)\<rparr>"

definition scenarioEnv :: Env where
  "scenarioEnv = deviceEnv (sizedDevice 1073741824 1073741824 536870912)"

text \<open>The device when it cannot be reached at all.\<close>

definition unreachableEnv :: Env where
  "unreachableEnv = deviceEnv (\<lambda>req. Inl (Error ''context deadline exceeded''))"

text \<open>The device when the episode list \<open>/a2\<close> answers with status 500.\<close>

definition failingDevice :: "Request \<Rightarrow> error + Response" where
  "failingDevice req =
     (if Method req = GET \<and> URL req = ''/a2''
      then Inr \<lparr>StatusCode = 500, ContentLength = 0, Body = Inr []\<rparr>
      else sizedDevice 1073741824 1073741824 536870912 req)"

definition failingEnv :: Env where
  "failingEnv = deviceEnv failingDevice"

text \<open>The device when both episodes of series A report \<open>2 ^ 62\<close> bytes.\<close>

definition hugeEnv :: Env where
  "hugeEnv = deviceEnv (sizedDevice 4611686018427387904 4611686018427387904 536870912)"

text \<open>The device when the episode of series B reports no content length.\<close>

definition noLengthEnv :: Env where
  "noLengthEnv = deviceEnv (sizedDevice 1073741824 1073741824 (- 1))"

text \<open>The entries of the two series as \<^verbatim>\<open>collectRecordings\<close> leaves them.\<close>

definition statA :: SeriesStat where
  "statA = \<lparr>Title = ''Alpha'', Count = 2, TotalSize = 0, EpisodesURLs = [''/a1'', ''/a2'']\<rparr>"

definition statB :: SeriesStat where
  "statB = \<lparr>Title = ''Beta'', Count = 1, TotalSize = 0, EpisodesURLs = [''/b1'']\<rparr>"

text \<open>The two messages of \<^verbatim>\<open>deleteSeries\<close>.\<close>

definition moreThanOneMessage :: "string \<Rightarrow> Recording \<Rightarrow> Recording \<Rightarrow> string" where
  "moreThanOneMessage title first second =
     ''More than one title matches '' @ quote @ title @ quote @ '':'' @ nl
     @ Recording.Title first @ nl @ Recording.Title second @ nl"

definition nothingMessage :: "string \<Rightarrow> string" where
  "nothingMessage title = ''Nothing matches '' @ quote @ title @ quote @ nl"

text \<open>A request issued through a client with the five-second timeout.\<close>

definition timed :: "Method \<Rightarrow> string \<Rightarrow> Request" where
  "timed m url = \<lparr>Method = m, URL = url, ClientTimeout = 5 * Second\<rparr>"

text \<open>The line that \<^verbatim>\<open>getStorageUrl\<close> writes first.\<close>

definition searchingLine :: string where
  "searchingLine = ''Searching for HDHomeRun devices on the local network...'' @ nl"

text \<open>
  The episodes whose sizes a run of the loops adds up: in one episode list those before
  the first whose size query fails, and over the URLs of a series those before the first
  failure of either kind.
\<close>

definition sizeKnown :: "Env \<Rightarrow> Episode \<Rightarrow> bool" where
  "sizeKnown env episode =
     (case fst (getEpisodeSize env (PlayURL episode) emptyWorld) of
        Inl err \<Rightarrow> False
      | Inr n \<Rightarrow> True)"

fun summedEpisodes :: "Env \<Rightarrow> string list \<Rightarrow> Episode list" where
  "summedEpisodes env [] = []"
| "summedEpisodes env (url # urls) =
     (case fst (getEpisodes env url emptyWorld) of
        Inl err \<Rightarrow> []
      | Inr episodes \<Rightarrow>
          if list_all (sizeKnown env) episodes then episodes @ summedEpisodes env urls
          else takeWhile (sizeKnown env) episodes)"

text \<open>
  What the documentation of \<^verbatim>\<open>slices.SortFunc\<close> asks of the comparison function (a strict
  weak ordering: negative for less, positive for greater, zero for equivalent) and what
  it promises in return: for such a function the result is the same elements, sorted.
  And what \<^verbatim>\<open>range\<close> promises over a map that is not changed meanwhile: every entry
  once.
\<close>

definition strictWeakOrder :: "('a \<Rightarrow> 'a \<Rightarrow> int) \<Rightarrow> bool" where
  "strictWeakOrder cmp =
     ((\<forall>a b. cmp a b < 0 \<longleftrightarrow> cmp b a > 0)
      \<and> (\<forall>a b c. cmp a b < 0 \<and> cmp b c < 0 \<longrightarrow> cmp a c < 0)
      \<and> (\<forall>a b c. cmp a b = 0 \<and> cmp b c = 0 \<longrightarrow> cmp a c = 0))"

definition sortFuncContract :: "Env \<Rightarrow> bool" where
  "sortFuncContract env =
     (\<forall>cmp stats. strictWeakOrder cmp \<longrightarrow>
        isSortedFunc cmp (sortFunc env cmp stats) \<and> mset (sortFunc env cmp stats) = mset stats)"

definition rangeContract :: "Env \<Rightarrow> bool" where
  "rangeContract env = (\<forall>m. mset (mapRange env m) = mset m)"

section \<open>Grouping by series\<close>

lemma addRecordings_Nil [simp]: "addRecordings s [] = s"
  by (simp add: addRecordings_def)

lemma addRecordings_Cons:
  "addRecordings s (r # rs) =
     addRecordings (s\<lparr>Count := Count s + 1, EpisodesURLs := EpisodesURLs s @ [EpisodesURL r]\<rparr>) rs"
  by (simp add: addRecordings_def)

lemma map_of_collectLoop:
  "map_of (collectLoop recordings m) k =
     (let fl = filter (\<lambda>r. SeriesID r = k) recordings
      in case map_of m k of
           Some s \<Rightarrow> Some (addRecordings s fl)
         | None \<Rightarrow> (case fl of [] \<Rightarrow> None | r0 # _ \<Rightarrow> Some (addRecordings (newSeries r0) fl)))"
proof (induction recordings arbitrary: m)
  case Nil
  show ?case by (simp split: option.split)
next
  case (Cons r recordings)
  show ?case
  proof (cases "SeriesID r = k")
    case True
    then show ?thesis
      by (simp add: Cons.IH update_conv' Let_def addRecordings_Cons newSeries_def
          split: option.split)
  next
    case False
    then show ?thesis
      by (simp add: Cons.IH update_conv' Let_def)
  qed
qed

lemma distinct_collectLoop:
  "distinct (map fst m) \<Longrightarrow> distinct (map fst (collectLoop recordings m))"
  by (induction recordings arbitrary: m) (simp_all add: Let_def distinct_update)

lemma keys_collectLoop:
  "fst ` set (collectLoop recordings m) = fst ` set m \<union> SeriesID ` set recordings"
proof -
  have "dom (map_of (collectLoop recordings m)) = dom (map_of m) \<union> SeriesID ` set recordings"
    by (induction recordings arbitrary: m) (auto simp: Let_def update_conv')
  then show ?thesis by (simp add: dom_map_of_conv_image_fst)
qed

lemma urls_update:
  "map_of m k = Some s \<Longrightarrow> EpisodesURLs s' = EpisodesURLs s @ [u] \<Longrightarrow>
   sum_list (map (\<lambda>(key, stat). mset (EpisodesURLs stat)) (AList.update k s' m))
     = sum_list (map (\<lambda>(key, stat). mset (EpisodesURLs stat)) m) + {#u#}"
  by (induction m) (auto split: if_splits)

lemma urls_update_new:
  "map_of m k = None \<Longrightarrow>
   sum_list (map (\<lambda>(key, stat). mset (EpisodesURLs stat)) (AList.update k s' m))
     = sum_list (map (\<lambda>(key, stat). mset (EpisodesURLs stat)) m) + mset (EpisodesURLs s')"
  by (induction m) (auto split: if_splits)

lemma urls_collectLoop:
  "sum_list (map (\<lambda>(key, stat). mset (EpisodesURLs stat)) (collectLoop recordings m))
     = sum_list (map (\<lambda>(key, stat). mset (EpisodesURLs stat)) m) + mset (map EpisodesURL recordings)"
proof (induction recordings arbitrary: m)
  case Nil
  show ?case by simp
next
  case (Cons r recordings)
  show ?case
  proof (cases "map_of m (SeriesID r)")
    case None
    then show ?thesis by (simp add: Cons.IH Let_def urls_update_new)
  next
    case (Some s)
    then show ?thesis by (simp add: Cons.IH Let_def urls_update [where s = s])
  qed
qed

lemma entry_unique:
  "distinct (map fst m) \<Longrightarrow> e \<in> set m \<Longrightarrow> e' \<in> set m \<Longrightarrow> fst e = fst e' \<Longrightarrow> e = e'"
  by (metis eq_key_imp_eq_value prod.collapse)

lemma collectRecordings_lookup:
  "map_of (collectRecordings recordings) k =
     (case filter (\<lambda>r. SeriesID r = k) recordings of
        [] \<Rightarrow> None
      | r0 # _ \<Rightarrow> Some (addRecordings (newSeries r0) (filter (\<lambda>r. SeriesID r = k) recordings)))"
  by (simp add: collectRecordings_def map_of_collectLoop Let_def)

lemma find_filter_Cons:
  "filter P xs = y # ys \<Longrightarrow> find P xs = Some y"
  by (induction xs) (auto split: if_splits)

lemma collectRecordings_scenario:
  "collectRecordings scenarioRecordings = [(''A'', statA), (''B'', statB)]"
  by (simp add: collectRecordings_def scenarioRecordings_def statA_def statB_def)

lemma collectRecordings_distinct:
  "distinct (map fst (collectRecordings recordings))"
  by (simp add: collectRecordings_def distinct_collectLoop)

lemma collectRecordings_keys:
  "fst ` set (collectRecordings recordings) = SeriesID ` set recordings"
  by (simp add: collectRecordings_def keys_collectLoop)

lemma collectRecordings_unique_entry:
  assumes "r \<in> set recordings"
  shows "\<exists>!entry. entry \<in> set (collectRecordings recordings) \<and> fst entry = SeriesID r"
proof -
  let ?m = "collectRecordings recordings"
  from assms have "SeriesID r \<in> fst ` set ?m"
    unfolding collectRecordings_keys by (rule imageI)
  then obtain e where e: "e \<in> set ?m" "fst e = SeriesID r" by auto
  show ?thesis
  proof (rule ex1I [of _ e])
    show "e \<in> set ?m \<and> fst e = SeriesID r" using e by simp
  next
    fix e' assume a: "e' \<in> set ?m \<and> fst e' = SeriesID r"
    show "e' = e"
      by (rule entry_unique [OF collectRecordings_distinct]) (use a e in simp_all)
  qed
qed

lemma collectRecordings_urls_of_key:
  assumes "(k, stat) \<in> set (collectRecordings recordings)"
  shows "EpisodesURLs stat = map EpisodesURL (filter (\<lambda>x. SeriesID x = k) recordings)"
proof -
  let ?fl = "filter (\<lambda>x. SeriesID x = k) recordings"
  from assms have m: "map_of (collectRecordings recordings) k = Some stat"
    using collectRecordings_distinct by simp
  show ?thesis
  proof (cases ?fl)
    case Nil
    with m show ?thesis by (simp add: collectRecordings_lookup)
  next
    case (Cons r0 rs)
    with m have "stat = addRecordings (newSeries r0) ?fl"
      by (simp add: collectRecordings_lookup)
    then show ?thesis
      by (simp add: addRecordings_def newSeries_def)
  qed
qed

lemma collectRecordings_contains_url:
  assumes "r \<in> set recordings" "(SeriesID r, stat) \<in> set (collectRecordings recordings)"
  shows "EpisodesURL r \<in> set (EpisodesURLs stat)"
  using assms(1) unfolding collectRecordings_urls_of_key [OF assms(2)] by simp

lemma collectRecordings_urls_mset:
  "sum_list (map (\<lambda>(key, stat). mset (EpisodesURLs stat)) (collectRecordings recordings))
     = mset (map EpisodesURL recordings)"
  by (simp add: collectRecordings_def urls_collectLoop)

text \<open>
  Claim C3. Grouping partitions the recordings: the keys of the map are distinct and are
  exactly the series identifiers of the input, every recording has exactly one entry (the
  one of its series identifier) and its URL is in that entry's list, and the lists of all
  entries together hold the same multiset of URLs as the input.
\<close>

theorem C3_collectRecordings_partitions:
  "distinct (map fst (collectRecordings recordings))
   \<and> fst ` set (collectRecordings recordings) = SeriesID ` set recordings
   \<and> (\<forall>r \<in> set recordings.
        \<exists>!entry. entry \<in> set (collectRecordings recordings) \<and> fst entry = SeriesID r)
   \<and> (\<forall>r \<in> set recordings. \<forall>stat.
        (SeriesID r, stat) \<in> set (collectRecordings recordings)
          \<longrightarrow> EpisodesURL r \<in> set (EpisodesURLs stat))
   \<and> sum_list (map (\<lambda>(key, stat). mset (EpisodesURLs stat)) (collectRecordings recordings))
       = mset (map EpisodesURL recordings)"
proof (intro conjI ballI allI impI)
  show "distinct (map fst (collectRecordings recordings))"
    by (rule collectRecordings_distinct)
  show "fst ` set (collectRecordings recordings) = SeriesID ` set recordings"
    by (rule collectRecordings_keys)
  show "\<exists>!entry. entry \<in> set (collectRecordings recordings) \<and> fst entry = SeriesID r"
    if "r \<in> set recordings" for r
    using that by (rule collectRecordings_unique_entry)
  show "EpisodesURL r \<in> set (EpisodesURLs stat)"
    if "r \<in> set recordings" "(SeriesID r, stat) \<in> set (collectRecordings recordings)" for r stat
    using that by (rule collectRecordings_contains_url)
  show "sum_list (map (\<lambda>(key, stat). mset (EpisodesURLs stat)) (collectRecordings recordings))
          = mset (map EpisodesURL recordings)"
    by (rule collectRecordings_urls_mset)
qed

theorem C3_collectRecordings_partitions_witness:
  "distinct (map fst (collectRecordings scenarioRecordings))
   \<and> fst ` set (collectRecordings scenarioRecordings) = {''A'', ''B''}
   \<and> scenarioRecordings ! 2 \<in> set scenarioRecordings
   \<and> (\<exists>!entry. entry \<in> set (collectRecordings scenarioRecordings) \<and> fst entry = ''A'')
   \<and> sum_list (map (\<lambda>(key, stat). mset (EpisodesURLs stat)) (collectRecordings scenarioRecordings))
       = {#''/a1'', ''/b1'', ''/a2''#}"
proof -
  have k: "SeriesID ` set scenarioRecordings = {''A'', ''B''}"
    by (auto simp: scenarioRecordings_def)
  have m: "mset (map EpisodesURL scenarioRecordings) = {#''/a1'', ''/b1'', ''/a2''#}"
    by (simp add: scenarioRecordings_def)
  have r: "scenarioRecordings ! 2 \<in> set scenarioRecordings"
    by (simp add: scenarioRecordings_def)
  have i: "SeriesID (scenarioRecordings ! 2) = ''A''"
    by (simp add: scenarioRecordings_def)
  from C3_collectRecordings_partitions [of scenarioRecordings] r
  have "\<exists>!entry. entry \<in> set (collectRecordings scenarioRecordings)
          \<and> fst entry = SeriesID (scenarioRecordings ! 2)"
    by blast
  then show ?thesis
    using C3_collectRecordings_partitions [of scenarioRecordings] k m r i by simp
qed

text \<open>
  Claim C4. For a series identifier that occurs in the input, its entry carries the title
  of the first recording with that identifier, and its URL list is the URLs of the
  recordings with that identifier, in input order.
\<close>

theorem C4_collectRecordings_first_title_and_order:
  assumes "k \<in> SeriesID ` set recordings"
  shows "\<exists>stat r0.
           map_of (collectRecordings recordings) k = Some stat
         \<and> find (\<lambda>r. SeriesID r = k) recordings = Some r0
         \<and> Title stat = Recording.Title r0
         \<and> EpisodesURLs stat = map EpisodesURL (filter (\<lambda>r. SeriesID r = k) recordings)"
proof -
  from assms have "filter (\<lambda>r. SeriesID r = k) recordings \<noteq> []"
    by (auto simp: filter_empty_conv)
  then obtain r0 rs where f: "filter (\<lambda>r. SeriesID r = k) recordings = r0 # rs"
    by (cases "filter (\<lambda>r. SeriesID r = k) recordings") auto
  then have "find (\<lambda>r. SeriesID r = k) recordings = Some r0"
    by (rule find_filter_Cons)
  with f show ?thesis
    by (simp add: collectRecordings_lookup addRecordings_def newSeries_def)
qed

theorem C4_collectRecordings_first_title_and_order_witness:
  "''A'' \<in> SeriesID ` set scenarioRecordings
   \<and> (\<exists>stat. map_of (collectRecordings scenarioRecordings) ''A'' = Some stat
        \<and> Title stat = ''Alpha'' \<and> EpisodesURLs stat = [''/a1'', ''/a2''])"
proof -
  have h: "''A'' \<in> SeriesID ` set scenarioRecordings"
    by (simp add: scenarioRecordings_def)
  have "find (\<lambda>r. SeriesID r = ''A'') scenarioRecordings = Some (scenarioRecordings ! 0)"
    by (simp add: scenarioRecordings_def)
  moreover have "map EpisodesURL (filter (\<lambda>r. SeriesID r = ''A'') scenarioRecordings)
                   = [''/a1'', ''/a2'']"
    by (simp add: scenarioRecordings_def)
  moreover have "Recording.Title (scenarioRecordings ! 0) = ''Alpha''"
    by (simp add: scenarioRecordings_def)
  ultimately show ?thesis
    using h C4_collectRecordings_first_title_and_order [OF h] by auto
qed

section \<open>Discovery\<close>

lemma getStorageUrl_cases:
  "getStorageUrl env w =
     (case roundTrip env discoverRequest of
        Inl err \<Rightarrow> Inl (Error (''failed to query discovery API: '' @ errorMessage err))
      | Inr resp \<Rightarrow>
          if StatusCode resp \<noteq> 200
          then Inl (Error (''discovery API returned status '' @ showInt (StatusCode resp)))
          else (case Body resp of
                  Inl err \<Rightarrow> Inl err
                | Inr body \<Rightarrow>
                    (case unmarshalDiscovery env body of
                       Inl err \<Rightarrow> Inl (Error (''failed to parse discovery JSON: '' @ errorMessage err))
                     | Inr discovery \<Rightarrow> Inr (StorageURL discovery))),
      (Println ''Searching for HDHomeRun devices on the local network...'' w)
        \<lparr>requests := requests w @ [discoverRequest]\<rparr>)"
  by (simp add: getStorageUrl_def Client_Get_def Client_Do_def discoverRequest_def Let_def
      Println_def writeOut_def split: sum.split)

lemma getStorageUrl_success_iff:
  "fst (getStorageUrl env w) = Inr url \<longleftrightarrow>
     (\<exists>resp body discovery.
        roundTrip env discoverRequest = Inr resp \<and> StatusCode resp = 200
        \<and> Body resp = Inr body \<and> unmarshalDiscovery env body = Inr discovery
        \<and> StorageURL discovery = url)"
  by (auto simp: getStorageUrl_cases split: sum.splits)

lemma getStorageUrl_failure_iff:
  "(\<exists>err. fst (getStorageUrl env w) = Inl err) \<longleftrightarrow>
     ((\<exists>e. roundTrip env discoverRequest = Inl e)
      \<or> (\<exists>resp. roundTrip env discoverRequest = Inr resp \<and> StatusCode resp \<noteq> 200)
      \<or> (\<exists>resp e. roundTrip env discoverRequest = Inr resp \<and> StatusCode resp = 200
            \<and> Body resp = Inl e)
      \<or> (\<exists>resp body e. roundTrip env discoverRequest = Inr resp \<and> StatusCode resp = 200
            \<and> Body resp = Inr body \<and> unmarshalDiscovery env body = Inl e))"
  by (auto simp: getStorageUrl_cases split: sum.splits)

text \<open>
  Claim C7. Discovery returns the storage URL exactly when the device answers the
  discovery request with status 200 and a body that decodes, and the decoded record's
  storage URL is what it returns. It fails exactly when the request fails (the transport
  returns an error, or reading the body does), the status is not 200, or the body does
  not decode. On failure \<^verbatim>\<open>getStorageUrlOrExit\<close> writes \<open>Discovery Error:\<close> with the
  error's message and exits with status 1; on success it returns the URL and writes
  nothing more.
\<close>

theorem C7_discovery_succeeds_or_exits:
  "(fst (getStorageUrl env w) = Inr url \<longleftrightarrow>
      (\<exists>resp body discovery.
         roundTrip env discoverRequest = Inr resp \<and> StatusCode resp = 200
         \<and> Body resp = Inr body \<and> unmarshalDiscovery env body = Inr discovery
         \<and> StorageURL discovery = url))
   \<and> ((\<exists>err. fst (getStorageUrl env w) = Inl err) \<longleftrightarrow>
        ((\<exists>e. roundTrip env discoverRequest = Inl e)
         \<or> (\<exists>resp. roundTrip env discoverRequest = Inr resp \<and> StatusCode resp \<noteq> 200)
         \<or> (\<exists>resp e. roundTrip env discoverRequest = Inr resp \<and> StatusCode resp = 200
               \<and> Body resp = Inl e)
         \<or> (\<exists>resp body e. roundTrip env discoverRequest = Inr resp \<and> StatusCode resp = 200
               \<and> Body resp = Inr body \<and> unmarshalDiscovery env body = Inl e)))
   \<and> (\<forall>err w1. getStorageUrl env w = (Inl err, w1) \<longrightarrow>
         getStorageUrlOrExit env w
           = (Exit 1, writeOut (''Discovery Error: '' @ errorMessage err @ nl) w1))
   \<and> (\<forall>ip w1. getStorageUrl env w = (Inr ip, w1) \<longrightarrow>
         getStorageUrlOrExit env w = (Return ip, w1))"
proof (intro conjI allI impI)
  show "fst (getStorageUrl env w) = Inr url \<longleftrightarrow>
      (\<exists>resp body discovery.
         roundTrip env discoverRequest = Inr resp \<and> StatusCode resp = 200
         \<and> Body resp = Inr body \<and> unmarshalDiscovery env body = Inr discovery
         \<and> StorageURL discovery = url)"
    by (rule getStorageUrl_success_iff)
  show "(\<exists>err. fst (getStorageUrl env w) = Inl err) \<longleftrightarrow>
        ((\<exists>e. roundTrip env discoverRequest = Inl e)
         \<or> (\<exists>resp. roundTrip env discoverRequest = Inr resp \<and> StatusCode resp \<noteq> 200)
         \<or> (\<exists>resp e. roundTrip env discoverRequest = Inr resp \<and> StatusCode resp = 200
               \<and> Body resp = Inl e)
         \<or> (\<exists>resp body e. roundTrip env discoverRequest = Inr resp \<and> StatusCode resp = 200
               \<and> Body resp = Inr body \<and> unmarshalDiscovery env body = Inl e))"
    by (rule getStorageUrl_failure_iff)
  show "getStorageUrlOrExit env w
          = (Exit 1, writeOut (''Discovery Error: '' @ errorMessage err @ nl) w1)"
    if "getStorageUrl env w = (Inl err, w1)" for err w1
    using that by (simp add: getStorageUrlOrExit_def)
  show "getStorageUrlOrExit env w = (Return ip, w1)"
    if "getStorageUrl env w = (Inr ip, w1)" for ip w1
    using that by (simp add: getStorageUrlOrExit_def)
qed

lemma getStorageUrl_scenario:
  "getStorageUrl scenarioEnv emptyWorld =
     (Inr ''http://10.0.0.5:80'',
      \<lparr>requests = [discoverRequest],
       stdout = [''Searching for HDHomeRun devices on the local network...'' @ nl]\<rparr>)"
  by (simp add: getStorageUrl_cases scenarioEnv_def deviceEnv_def sizedDevice_def
      discoverRequest_def okResponse_def scenarioDiscovery_def emptyWorld_def Println_def
      writeOut_def)

lemma getStorageUrl_unreachable:
  "getStorageUrl unreachableEnv emptyWorld =
     (Inl (Error ''failed to query discovery API: context deadline exceeded''),
      \<lparr>requests = [discoverRequest],
       stdout = [''Searching for HDHomeRun devices on the local network...'' @ nl]\<rparr>)"
  by (simp add: getStorageUrl_cases unreachableEnv_def deviceEnv_def emptyWorld_def
      Println_def writeOut_def)

theorem C7_discovery_succeeds_or_exits_witness:
  "getStorageUrlOrExit scenarioEnv emptyWorld =
     (Return ''http://10.0.0.5:80'',
      \<lparr>requests = [discoverRequest],
       stdout = [''Searching for HDHomeRun devices on the local network...'' @ nl]\<rparr>)
   \<and> getStorageUrlOrExit unreachableEnv emptyWorld =
     (Exit 1,
      \<lparr>requests = [discoverRequest],
       stdout = [''Searching for HDHomeRun devices on the local network...'' @ nl,
                 ''Discovery Error: failed to query discovery API: context deadline exceeded'' @ nl]\<rparr>)"
proof -
  have a: "getStorageUrlOrExit scenarioEnv emptyWorld =
     (Return ''http://10.0.0.5:80'',
      \<lparr>requests = [discoverRequest],
       stdout = [''Searching for HDHomeRun devices on the local network...'' @ nl]\<rparr>)"
    using C7_discovery_succeeds_or_exits [of scenarioEnv emptyWorld] getStorageUrl_scenario
    by blast
  have "getStorageUrlOrExit unreachableEnv emptyWorld =
     (Exit 1, writeOut (''Discovery Error: ''
        @ errorMessage (Error ''failed to query discovery API: context deadline exceeded'') @ nl)
      \<lparr>requests = [discoverRequest],
       stdout = [''Searching for HDHomeRun devices on the local network...'' @ nl]\<rparr>)"
    using C7_discovery_succeeds_or_exits [of unreachableEnv emptyWorld] getStorageUrl_unreachable
    by blast
  then have b: "getStorageUrlOrExit unreachableEnv emptyWorld =
     (Exit 1,
      \<lparr>requests = [discoverRequest],
       stdout = [''Searching for HDHomeRun devices on the local network...'' @ nl,
                 ''Discovery Error: failed to query discovery API: context deadline exceeded'' @ nl]\<rparr>)"
    by (simp add: writeOut_def)
  from a b show ?thesis by (rule conjI)
qed

section \<open>Aggregation\<close>

lemma getEpisodeSize_world:
  "getEpisodeSize env playUrl w =
     (fst (getEpisodeSize env playUrl emptyWorld),
      w\<lparr>requests := requests w
           @ [\<lparr>Method = HEAD, URL = playUrl, ClientTimeout = 5 * Second\<rparr>]\<rparr>)"
  by (simp add: getEpisodeSize_def Client_Head_def Client_Do_def Let_def split: sum.split)

lemma getEpisodes_world:
  "getEpisodes env url w =
     (fst (getEpisodes env url emptyWorld),
      w\<lparr>requests := requests w
           @ [\<lparr>Method = GET, URL = url, ClientTimeout = 5 * Second\<rparr>]\<rparr>)"
  by (simp add: getEpisodes_def Client_Get_def Client_Do_def Let_def split: sum.split)

lemma getEpisodeSize_Inr:
  "getEpisodeSize env playUrl w = (Inr n, w1) \<Longrightarrow> sizeOf env playUrl = n"
  by (subst (asm) getEpisodeSize_world) (simp add: sizeOf_def)

lemma getEpisodes_Inr:
  "getEpisodes env url w = (Inr episodes, w1) \<Longrightarrow> episodesOf env url = episodes"
  by (subst (asm) getEpisodes_world) (simp add: episodesOf_def)

lemma getEpisodes_Inl:
  "getEpisodes env url w = (Inl err, w1) \<Longrightarrow> episodesOf env url = []"
  by (subst (asm) getEpisodes_world) (simp add: episodesOf_def)

text \<open>
  The inner loop adds to the two sums the sizes of a prefix of the episode list, the whole
  list when it ends without error, and leaves the other fields alone.
\<close>

lemma sumEpisodes_prefix:
  "sumEpisodes env episodes stat w = (err, stat1, w1) \<Longrightarrow>
   \<exists>n \<le> length episodes.
     Count stat1 = Count stat + of_nat n
     \<and> TotalSize stat1 = TotalSize stat + sum_list (take n (sizesOf env episodes))
     \<and> (err = None \<longleftrightarrow> n = length episodes \<and> (\<forall>e \<in> set episodes.
            fst (getEpisodeSize env (PlayURL e) emptyWorld) = Inr (sizeOf env (PlayURL e))))
     \<and> Title stat1 = Title stat \<and> EpisodesURLs stat1 = EpisodesURLs stat"
proof (induction episodes arbitrary: stat w)
  case Nil
  then show ?case by (auto simp: sizesOf_def)
next
  case (Cons episode episodes)
  obtain r w2 where g: "getEpisodeSize env (PlayURL episode) w = (r, w2)"
    by (cases "getEpisodeSize env (PlayURL episode) w")
  show ?case
  proof (cases r)
    case (Inl e)
    with g Cons.prems have "err = Some e" "stat1 = stat" by simp_all
    moreover from g Inl have "fst (getEpisodeSize env (PlayURL episode) emptyWorld) = Inl e"
      by (subst (asm) getEpisodeSize_world) simp
    ultimately show ?thesis
      by (intro exI [of _ 0]) (auto simp: sizeOf_def)
  next
    case (Inr sz)
    let ?stat = "stat\<lparr>Count := Count stat + 1, TotalSize := TotalSize stat + sz\<rparr>"
    from g Inr Cons.prems have "sumEpisodes env episodes ?stat w2 = (err, stat1, w1)"
      by simp
    from Cons.IH [OF this] obtain n where n: "n \<le> length episodes"
      "Count stat1 = Count ?stat + of_nat n"
      "TotalSize stat1 = TotalSize ?stat + sum_list (take n (sizesOf env episodes))"
      "err = None \<longleftrightarrow> n = length episodes \<and> (\<forall>e \<in> set episodes.
            fst (getEpisodeSize env (PlayURL e) emptyWorld) = Inr (sizeOf env (PlayURL e)))"
      "Title stat1 = Title ?stat" "EpisodesURLs stat1 = EpisodesURLs ?stat"
      by blast
    from g Inr have s: "sizeOf env (PlayURL episode) = sz"
      by (simp add: getEpisodeSize_Inr)
    from g Inr have f: "fst (getEpisodeSize env (PlayURL episode) emptyWorld) = Inr sz"
      by (subst (asm) getEpisodeSize_world) simp
    show ?thesis
    proof (intro exI [of _ "Suc n"] conjI)
      show "Suc n \<le> length (episode # episodes)" using n(1) by simp
      show "Count stat1 = Count stat + of_nat (Suc n)" using n(2) by simp
      show "TotalSize stat1
              = TotalSize stat + sum_list (take (Suc n) (sizesOf env (episode # episodes)))"
        using n(3) s by (simp add: sizesOf_def)
      show "err = None \<longleftrightarrow> Suc n = length (episode # episodes)
              \<and> (\<forall>e \<in> set (episode # episodes).
                   fst (getEpisodeSize env (PlayURL e) emptyWorld) = Inr (sizeOf env (PlayURL e)))"
        using n(4) s f by auto
      show "Title stat1 = Title stat" using n(5) by simp
      show "EpisodesURLs stat1 = EpisodesURLs stat" using n(6) by simp
    qed
  qed
qed

lemma sizesOf_append [simp]:
  "sizesOf env (xs @ ys) = sizesOf env xs @ sizesOf env ys"
  by (simp add: sizesOf_def)

lemma sizesOf_Nil [simp]: "sizesOf env [] = []"
  by (simp add: sizesOf_def)

lemma length_sizesOf [simp]: "length (sizesOf env xs) = length xs"
  by (simp add: sizesOf_def)

lemma episodesOfURLs_Cons [simp]:
  "episodesOfURLs env (url # urls) = episodesOf env url @ episodesOfURLs env urls"
  by (simp add: episodesOfURLs_def)

lemma episodesOfURLs_Nil [simp]: "episodesOfURLs env [] = []"
  by (simp add: episodesOfURLs_def)

text \<open>The same for the outer loop, over the episodes of all the URLs.\<close>

lemma aggregateURLs_prefix:
  "aggregateURLs env urls stat w = (err, stat1, w1) \<Longrightarrow>
   \<exists>n \<le> length (episodesOfURLs env urls).
     Count stat1 = Count stat + of_nat n
     \<and> TotalSize stat1 = TotalSize stat + sum_list (take n (sizesOf env (episodesOfURLs env urls)))
     \<and> (err = None \<longrightarrow> n = length (episodesOfURLs env urls)
          \<and> (\<forall>url \<in> set urls. fst (getEpisodes env url emptyWorld) = Inr (episodesOf env url))
          \<and> (\<forall>e \<in> set (episodesOfURLs env urls).
                fst (getEpisodeSize env (PlayURL e) emptyWorld) = Inr (sizeOf env (PlayURL e))))
     \<and> Title stat1 = Title stat \<and> EpisodesURLs stat1 = EpisodesURLs stat"
proof (induction urls arbitrary: stat w)
  case Nil
  then show ?case by auto
next
  case (Cons url urls)
  obtain r w2 where g: "getEpisodes env url w = (r, w2)"
    by (cases "getEpisodes env url w")
  show ?case
  proof (cases r)
    case (Inl e)
    with g Cons.prems have "err = Some e" "stat1 = stat" by simp_all
    then show ?thesis by (intro exI [of _ 0]) simp
  next
    case (Inr episodes)
    with g have eps: "episodesOf env url = episodes"
      by (simp add: getEpisodes_Inr)
    from g Inr have f: "fst (getEpisodes env url emptyWorld) = Inr episodes"
      by (subst (asm) getEpisodes_world) simp
    obtain e2 stat2 w3 where s: "sumEpisodes env episodes stat w2 = (e2, stat2, w3)"
      by (cases "sumEpisodes env episodes stat w2")
    from sumEpisodes_prefix [OF s] obtain n1 where n1: "n1 \<le> length episodes"
      "Count stat2 = Count stat + of_nat n1"
      "TotalSize stat2 = TotalSize stat + sum_list (take n1 (sizesOf env episodes))"
      "e2 = None \<longleftrightarrow> n1 = length episodes \<and> (\<forall>e \<in> set episodes.
            fst (getEpisodeSize env (PlayURL e) emptyWorld) = Inr (sizeOf env (PlayURL e)))"
      "Title stat2 = Title stat" "EpisodesURLs stat2 = EpisodesURLs stat"
      by blast
    show ?thesis
    proof (cases e2)
      case (Some e)
      with g Inr s Cons.prems have r: "err = Some e" "stat1 = stat2" by simp_all
      show ?thesis
      proof (intro exI [of _ n1] conjI)
        show "n1 \<le> length (episodesOfURLs env (url # urls))" using n1(1) eps by simp
        show "Count stat1 = Count stat + of_nat n1" using n1(2) r by simp
        show "TotalSize stat1
                = TotalSize stat + sum_list (take n1 (sizesOf env (episodesOfURLs env (url # urls))))"
          using n1(1,3) r eps by simp
        show "err = None \<longrightarrow> n1 = length (episodesOfURLs env (url # urls))
          \<and> (\<forall>url \<in> set (url # urls). fst (getEpisodes env url emptyWorld) = Inr (episodesOf env url))
          \<and> (\<forall>e \<in> set (episodesOfURLs env (url # urls)).
                fst (getEpisodeSize env (PlayURL e) emptyWorld) = Inr (sizeOf env (PlayURL e)))"
          using r by simp
        show "Title stat1 = Title stat" using n1(5) r by simp
        show "EpisodesURLs stat1 = EpisodesURLs stat" using n1(6) r by simp
      qed
    next
      case None
      with g Inr s Cons.prems have "aggregateURLs env urls stat2 w3 = (err, stat1, w1)"
        by simp
      from Cons.IH [OF this] obtain n2 where n2: "n2 \<le> length (episodesOfURLs env urls)"
        "Count stat1 = Count stat2 + of_nat n2"
        "TotalSize stat1
           = TotalSize stat2 + sum_list (take n2 (sizesOf env (episodesOfURLs env urls)))"
        "err = None \<longrightarrow> n2 = length (episodesOfURLs env urls)
          \<and> (\<forall>url \<in> set urls. fst (getEpisodes env url emptyWorld) = Inr (episodesOf env url))
          \<and> (\<forall>e \<in> set (episodesOfURLs env urls).
                fst (getEpisodeSize env (PlayURL e) emptyWorld) = Inr (sizeOf env (PlayURL e)))"
        "Title stat1 = Title stat2" "EpisodesURLs stat1 = EpisodesURLs stat2"
        by blast
      from None n1(4) have full: "n1 = length episodes"
        and ok: "\<forall>e \<in> set episodes.
            fst (getEpisodeSize env (PlayURL e) emptyWorld) = Inr (sizeOf env (PlayURL e))"
        by simp_all
      show ?thesis
      proof (intro exI [of _ "length episodes + n2"] conjI)
        show "length episodes + n2 \<le> length (episodesOfURLs env (url # urls))"
          using n2(1) eps by simp
        show "Count stat1 = Count stat + of_nat (length episodes + n2)"
          using n1(2) n2(2) full by simp
        show "TotalSize stat1 = TotalSize stat
                + sum_list (take (length episodes + n2)
                    (sizesOf env (episodesOfURLs env (url # urls))))"
          using n1(3) n2(3) full eps by simp
        show "err = None \<longrightarrow> length episodes + n2 = length (episodesOfURLs env (url # urls))
          \<and> (\<forall>url \<in> set (url # urls). fst (getEpisodes env url emptyWorld) = Inr (episodesOf env url))
          \<and> (\<forall>e \<in> set (episodesOfURLs env (url # urls)).
                fst (getEpisodeSize env (PlayURL e) emptyWorld) = Inr (sizeOf env (PlayURL e)))"
          using n2(4) ok f eps by auto
        show "Title stat1 = Title stat" using n1(5) n2(5) by simp
        show "EpisodesURLs stat1 = EpisodesURLs stat" using n1(6) n2(6) by simp
      qed
    qed
  qed
qed

lemma aggregateStats_prefix:
  assumes "aggregateStats env stat w = (err, stat1, w1)"
  shows "\<exists>n \<le> length (seriesEpisodes env stat).
     Count stat1 = of_nat n
     \<and> TotalSize stat1 = sum_list (take n (seriesSizes env stat))
     \<and> (err = None \<longrightarrow> n = length (seriesEpisodes env stat)
          \<and> (\<forall>url \<in> set (EpisodesURLs stat).
                fst (getEpisodes env url emptyWorld) = Inr (episodesOf env url))
          \<and> (\<forall>e \<in> set (seriesEpisodes env stat).
                fst (getEpisodeSize env (PlayURL e) emptyWorld) = Inr (sizeOf env (PlayURL e))))
     \<and> Title stat1 = Title stat \<and> EpisodesURLs stat1 = EpisodesURLs stat"
proof -
  let ?stat = "stat\<lparr>Count := 0, TotalSize := 0\<rparr>"
  from assms have "aggregateURLs env (EpisodesURLs stat) ?stat w = (err, stat1, w1)"
    by (simp add: aggregateStats_def)
  from aggregateURLs_prefix [OF this] show ?thesis
    by (simp add: seriesEpisodes_def seriesSizes_def)
qed

lemma sum_list_word_of_int:
  "sum_list xs = (word_of_int (sum_list (map sint xs)) :: 'a::len word)"
  by (induction xs) simp_all

lemma sint_sum_list:
  fixes xs :: "int64 list"
  assumes "- (2 ^ 63) \<le> sum_list (map sint xs)" "sum_list (map sint xs) < 2 ^ 63"
  shows "sint (sum_list xs) = sum_list (map sint xs)"
proof -
  have "sint (sum_list xs) = sint (word_of_int (sum_list (map sint xs)) :: int64)"
    by (subst sum_list_word_of_int) simp
  also have "\<dots> = sum_list (map sint xs)"
    using assms by (simp add: signed_of_int signed_take_bit_int_eq_self)
  finally show ?thesis .
qed

lemma unat_count:
  "n < 2 ^ 32 \<Longrightarrow> unat (of_nat n :: uint32) = n"
  by (simp add: unat_of_nat)

lemma sum_take_nonneg:
  fixes xs :: "int list"
  assumes "\<forall>x \<in> set xs. 0 \<le> x"
  shows "0 \<le> sum_list (take i xs) \<and> sum_list (take i xs) \<le> sum_list (take (Suc i) xs)
         \<and> sum_list (take i xs) \<le> sum_list xs"
proof -
  have a: "0 \<le> sum_list (take i xs)"
    using assms by (intro sum_list_nonneg) (auto dest: in_set_takeD)
  have b: "0 \<le> sum_list (drop i xs)"
    using assms by (intro sum_list_nonneg) (auto dest: in_set_dropD)
  have "sum_list xs = sum_list (take i xs) + sum_list (drop i xs)"
    by (metis append_take_drop_id sum_list_append)
  with b have c: "sum_list (take i xs) \<le> sum_list xs" by simp
  have d: "sum_list (take i xs) \<le> sum_list (take (Suc i) xs)"
  proof (cases "i < length xs")
    case True
    then have "take (Suc i) xs = take i xs @ [xs ! i]" by (rule take_Suc_conv_app_nth)
    moreover from True assms have "0 \<le> xs ! i" by simp
    ultimately show ?thesis by simp
  next
    case False
    then show ?thesis by simp
  qed
  from a c d show ?thesis by simp
qed

lemmas scenario_defs =
  deviceEnv_def sizedDevice_def okResponse_def scenarioDiscovery_def
  scenarioUnmarshalRecordings_def scenarioUnmarshalEpisodes_def

lemmas run_defs =
  getEpisodes_def getEpisodeSize_def Client_Get_def Client_Head_def Client_Do_def
  aggregateStats_def emptyWorld_def Let_def

lemma aggregateStats_scenarioA:
  "aggregateStats scenarioEnv statA emptyWorld =
     (None,
      \<lparr>Title = ''Alpha'', Count = 2, TotalSize = 2147483648, EpisodesURLs = [''/a1'', ''/a2'']\<rparr>,
      \<lparr>requests =
         [\<lparr>Method = GET, URL = ''/a1'', ClientTimeout = 5 * Second\<rparr>,
          \<lparr>Method = HEAD, URL = ''/play/a1'', ClientTimeout = 5 * Second\<rparr>,
          \<lparr>Method = GET, URL = ''/a2'', ClientTimeout = 5 * Second\<rparr>,
          \<lparr>Method = HEAD, URL = ''/play/a2'', ClientTimeout = 5 * Second\<rparr>],
       stdout = []\<rparr>)"
  by (simp add: scenarioEnv_def statA_def scenario_defs run_defs)

lemma aggregateStats_hugeA:
  "aggregateStats hugeEnv statA emptyWorld =
     (None,
      \<lparr>Title = ''Alpha'', Count = 2, TotalSize = 9223372036854775808,
       EpisodesURLs = [''/a1'', ''/a2'']\<rparr>,
      \<lparr>requests =
         [\<lparr>Method = GET, URL = ''/a1'', ClientTimeout = 5 * Second\<rparr>,
          \<lparr>Method = HEAD, URL = ''/play/a1'', ClientTimeout = 5 * Second\<rparr>,
          \<lparr>Method = GET, URL = ''/a2'', ClientTimeout = 5 * Second\<rparr>,
          \<lparr>Method = HEAD, URL = ''/play/a2'', ClientTimeout = 5 * Second\<rparr>],
       stdout = []\<rparr>)"
  by (simp add: hugeEnv_def statA_def scenario_defs run_defs)

lemma seriesSizes_hugeA:
  "seriesSizes hugeEnv statA = [4611686018427387904, 4611686018427387904]"
  by (simp add: seriesSizes_def seriesEpisodes_def episodesOfURLs_def episodesOf_def sizesOf_def
      sizeOf_def hugeEnv_def statA_def scenario_defs run_defs)

lemma seriesSizes_scenarioA:
  "seriesSizes scenarioEnv statA = [1073741824, 1073741824]"
  by (simp add: seriesSizes_def seriesEpisodes_def episodesOfURLs_def episodesOf_def sizesOf_def
      sizeOf_def scenarioEnv_def statA_def scenario_defs run_defs)

lemma aggregateStats_noLengthB:
  "aggregateStats noLengthEnv statB emptyWorld =
     (None,
      \<lparr>Title = ''Beta'', Count = 1, TotalSize = - 1, EpisodesURLs = [''/b1'']\<rparr>,
      \<lparr>requests =
         [\<lparr>Method = GET, URL = ''/b1'', ClientTimeout = 5 * Second\<rparr>,
          \<lparr>Method = HEAD, URL = ''/play/b1'', ClientTimeout = 5 * Second\<rparr>],
       stdout = []\<rparr>)"
  by (simp add: noLengthEnv_def statB_def scenario_defs run_defs)

lemma aggregateStats_failingA:
  "aggregateStats failingEnv statA emptyWorld =
     (Some (Error ''/a2 returned status 500''),
      \<lparr>Title = ''Alpha'', Count = 1, TotalSize = 1073741824, EpisodesURLs = [''/a1'', ''/a2'']\<rparr>,
      \<lparr>requests =
         [\<lparr>Method = GET, URL = ''/a1'', ClientTimeout = 5 * Second\<rparr>,
          \<lparr>Method = HEAD, URL = ''/play/a1'', ClientTimeout = 5 * Second\<rparr>,
          \<lparr>Method = GET, URL = ''/a2'', ClientTimeout = 5 * Second\<rparr>],
       stdout = []\<rparr>)"
  by (simp add: failingEnv_def failingDevice_def statA_def scenario_defs run_defs
      showInt_def showNat.simps)

text \<open>
  Claim C2, as amended. When \<^verbatim>\<open>aggregateStats\<close> returns no error, every episode list of
  the series was fetched and every episode's size was obtained; the count is the number
  of those episodes and the total size is the sum of those sizes, both in the arithmetic
  of their types (\<^verbatim>\<open>uint32\<close> and \<^verbatim>\<open>int64\<close>, which wrap around). The count equals the
  number of episodes when that is below \<open>2 ^ 32\<close>, and the total size equals the sum of
  the sizes when that sum lies in the range of \<^verbatim>\<open>int64\<close>. Neither depends on the count
  that grouping left in the entry.
\<close>

theorem C2_aggregateStats_counts_episodes_and_sums_sizes:
  assumes "aggregateStats env stat w = (None, stat1, w1)"
  shows "(\<forall>url \<in> set (EpisodesURLs stat).
            fst (getEpisodes env url emptyWorld) = Inr (episodesOf env url))
       \<and> (\<forall>e \<in> set (seriesEpisodes env stat).
            fst (getEpisodeSize env (PlayURL e) emptyWorld) = Inr (sizeOf env (PlayURL e)))
       \<and> Count stat1 = of_nat (length (seriesEpisodes env stat))
       \<and> TotalSize stat1 = sum_list (seriesSizes env stat)
       \<and> (length (seriesEpisodes env stat) < 2 ^ 32
            \<longrightarrow> unat (Count stat1) = length (seriesEpisodes env stat))
       \<and> (- (2 ^ 63) \<le> sum_list (map sint (seriesSizes env stat))
            \<and> sum_list (map sint (seriesSizes env stat)) < 2 ^ 63
            \<longrightarrow> sint (TotalSize stat1) = sum_list (map sint (seriesSizes env stat)))"
proof -
  from aggregateStats_prefix [OF assms] obtain n where n:
    "n = length (seriesEpisodes env stat)"
    "Count stat1 = of_nat n"
    "TotalSize stat1 = sum_list (take n (seriesSizes env stat))"
    "\<forall>url \<in> set (EpisodesURLs stat).
       fst (getEpisodes env url emptyWorld) = Inr (episodesOf env url)"
    "\<forall>e \<in> set (seriesEpisodes env stat).
       fst (getEpisodeSize env (PlayURL e) emptyWorld) = Inr (sizeOf env (PlayURL e))"
    by blast
  have t: "TotalSize stat1 = sum_list (seriesSizes env stat)"
    using n(1,3) by (simp add: seriesSizes_def)
  have c: "unat (Count stat1) = length (seriesEpisodes env stat)"
    if "length (seriesEpisodes env stat) < 2 ^ 32"
    using that n(1,2) by (simp add: unat_count)
  have s: "sint (TotalSize stat1) = sum_list (map sint (seriesSizes env stat))"
    if "- (2 ^ 63) \<le> sum_list (map sint (seriesSizes env stat))"
       "sum_list (map sint (seriesSizes env stat)) < 2 ^ 63"
    unfolding t using that by (rule sint_sum_list)
  from n t c s show ?thesis by blast
qed

theorem C2_aggregateStats_counts_episodes_and_sums_sizes_witness:
  "fst (aggregateStats scenarioEnv statA emptyWorld) = None
   \<and> length (seriesEpisodes scenarioEnv statA) = 2
   \<and> unat (Count (fst (snd (aggregateStats scenarioEnv statA emptyWorld)))) = 2
   \<and> sint (TotalSize (fst (snd (aggregateStats scenarioEnv statA emptyWorld)))) = 2147483648"
proof -
  have l: "length (seriesEpisodes scenarioEnv statA) = 2"
    using arg_cong [OF seriesSizes_scenarioA, of length] by (simp add: seriesSizes_def)
  have s: "sum_list (map sint (seriesSizes scenarioEnv statA)) = 2147483648"
    by (simp add: seriesSizes_scenarioA)
  show ?thesis
    using C2_aggregateStats_counts_episodes_and_sums_sizes [OF aggregateStats_scenarioA] l s
    by (simp add: aggregateStats_scenarioA)
qed

text \<open>
  The claim as stated fails where the sum leaves the range of \<^verbatim>\<open>int64\<close>: two episodes of
  \<open>2 ^ 62\<close> bytes each sum to \<open>2 ^ 63\<close>, and the total size is \<open>- (2 ^ 63)\<close>.
\<close>

theorem C2_total_size_wraps_counterexample:
  "fst (aggregateStats hugeEnv statA emptyWorld) = None
   \<and> sum_list (map sint (seriesSizes hugeEnv statA)) = 9223372036854775808
   \<and> sint (TotalSize (fst (snd (aggregateStats hugeEnv statA emptyWorld)))) = - 9223372036854775808
   \<and> sint (TotalSize (fst (snd (aggregateStats hugeEnv statA emptyWorld))))
       \<noteq> sum_list (map sint (seriesSizes hugeEnv statA))"
  by (simp add: aggregateStats_hugeA seriesSizes_hugeA)

lemma sizeKnown_iff:
  "sizeKnown env episode \<longleftrightarrow>
     fst (getEpisodeSize env (PlayURL episode) emptyWorld) = Inr (sizeOf env (PlayURL episode))"
  by (simp add: sizeKnown_def sizeOf_def split: sum.split)

text \<open>
  The inner loop, from any accumulator: it adds one to the count and the content length
  to the total size for exactly the episodes before the first failing size query, and
  returns an error exactly when there is such a query.
\<close>

lemma sumEpisodes_exact:
  "sumEpisodes env episodes acc w = (err, stat1, w1) \<Longrightarrow>
   Count stat1 = Count acc + of_nat (length (takeWhile (sizeKnown env) episodes))
   \<and> TotalSize stat1 = TotalSize acc + sum_list (sizesOf env (takeWhile (sizeKnown env) episodes))
   \<and> (err = None \<longleftrightarrow> list_all (sizeKnown env) episodes)"
proof (induction episodes arbitrary: acc w)
  case Nil
  then show ?case by simp
next
  case (Cons episode episodes)
  obtain r w2 where g: "getEpisodeSize env (PlayURL episode) w = (r, w2)"
    by (cases "getEpisodeSize env (PlayURL episode) w")
  then have f: "fst (getEpisodeSize env (PlayURL episode) emptyWorld) = r"
    by (subst (asm) getEpisodeSize_world) simp
  show ?case
  proof (cases r)
    case (Inl e)
    with f have k: "\<not> sizeKnown env episode" by (simp add: sizeKnown_def)
    from g Inl Cons.prems have "err = Some e" "stat1 = acc" by simp_all
    with k show ?thesis by simp
  next
    case (Inr sz)
    with f have k: "sizeKnown env episode" by (simp add: sizeKnown_def)
    from f Inr have s: "sizeOf env (PlayURL episode) = sz" by (simp add: sizeOf_def)
    let ?acc = "acc\<lparr>Count := Count acc + 1, TotalSize := TotalSize acc + sz\<rparr>"
    from g Inr Cons.prems have "sumEpisodes env episodes ?acc w2 = (err, stat1, w1)"
      by simp
    from Cons.IH [OF this] k s show ?thesis
      by (simp add: sizesOf_def)
  qed
qed

lemma takeWhile_all:
  "list_all P xs \<Longrightarrow> takeWhile P xs = xs"
  by (induction xs) simp_all

text \<open>The outer loop, from any accumulator.\<close>

lemma aggregateURLs_exact:
  "aggregateURLs env urls acc w = (err, stat1, w1) \<Longrightarrow>
   Count stat1 = Count acc + of_nat (length (summedEpisodes env urls))
   \<and> TotalSize stat1 = TotalSize acc + sum_list (sizesOf env (summedEpisodes env urls))
   \<and> (err = None \<longleftrightarrow>
        (\<forall>url \<in> set urls. fst (getEpisodes env url emptyWorld) = Inr (episodesOf env url))
        \<and> list_all (sizeKnown env) (episodesOfURLs env urls))"
proof (induction urls arbitrary: acc w)
  case Nil
  then show ?case by simp
next
  case (Cons url urls)
  obtain r w2 where g: "getEpisodes env url w = (r, w2)"
    by (cases "getEpisodes env url w")
  then have f: "fst (getEpisodes env url emptyWorld) = r"
    by (subst (asm) getEpisodes_world) simp
  show ?case
  proof (cases r)
    case (Inl e)
    from g Inl Cons.prems have "err = Some e" "stat1 = acc" by simp_all
    with f Inl show ?thesis by simp
  next
    case (Inr episodes)
    with f have eps: "episodesOf env url = episodes" by (simp add: episodesOf_def)
    obtain e2 stat2 w3 where s: "sumEpisodes env episodes acc w2 = (e2, stat2, w3)"
      by (cases "sumEpisodes env episodes acc w2")
    note x = sumEpisodes_exact [OF s]
    show ?thesis
    proof (cases e2)
      case (Some e)
      with g Inr s Cons.prems have r: "err = Some e" "stat1 = stat2" by simp_all
      from Some x have n: "\<not> list_all (sizeKnown env) episodes" by simp
      from x r n f Inr eps show ?thesis by simp
    next
      case None
      with x have a: "list_all (sizeKnown env) episodes" by simp
      from None g Inr s Cons.prems have "aggregateURLs env urls stat2 w3 = (err, stat1, w1)"
        by simp
      from Cons.IH [OF this] x a f Inr eps show ?thesis
        by (simp add: takeWhile_all add.assoc)
    qed
  qed
qed

lemma summedEpisodes_prefix:
  "prefix (summedEpisodes env urls) (episodesOfURLs env urls)"
proof (induction urls)
  case Nil
  show ?case by simp
next
  case (Cons url urls)
  show ?case
  proof (cases "fst (getEpisodes env url emptyWorld)")
    case (Inl e)
    then show ?thesis by simp
  next
    case (Inr episodes)
    then have eps: "episodesOf env url = episodes" by (simp add: episodesOf_def)
    show ?thesis
    proof (cases "list_all (sizeKnown env) episodes")
      case True
      with Inr eps Cons.IH show ?thesis by simp
    next
      case False
      have "prefix (takeWhile (sizeKnown env) episodes) episodes"
        by (metis prefixI takeWhile_dropWhile_id)
      then have "prefix (takeWhile (sizeKnown env) episodes) (episodes @ episodesOfURLs env urls)"
        by (rule prefix_prefix)
      with False Inr eps show ?thesis by simp
    qed
  qed
qed

lemma summedEpisodes_known:
  "list_all (sizeKnown env) (summedEpisodes env urls)"
proof (induction urls)
  case Nil
  show ?case by simp
next
  case (Cons url urls)
  have t: "list_all (sizeKnown env) (takeWhile (sizeKnown env) xs)" for xs
    by (induction xs) simp_all
  from Cons.IH t show ?case
    by (simp split: sum.split)
qed

lemma summedEpisodes_all:
  assumes "\<forall>url \<in> set urls. fst (getEpisodes env url emptyWorld) = Inr (episodesOf env url)"
    and "list_all (sizeKnown env) (episodesOfURLs env urls)"
  shows "summedEpisodes env urls = episodesOfURLs env urls"
  using assms by (induction urls) simp_all

text \<open>
  Claim C6, as amended. \<^verbatim>\<open>aggregateStats\<close> resets the count and the total size to zero
  and then only adds to them. Whatever they were before, and whether or not an error is
  returned, afterwards the count is the number of the episodes summed and the total size
  is the sum of their content lengths, where the episodes summed are exactly those that
  come before the first failure: a prefix of the series' episodes, each with its size
  obtained, and all of them exactly when no error is returned. Both loops, from any
  accumulator, add just that to it. The count is unsigned, and is the number of episodes
  summed while that is below \<open>2 ^ 32\<close>. When every content length summed is non-negative
  and their sum is below \<open>2 ^ 63\<close>, each partial sum is at most the next one and the
  total size is at least zero.
\<close>

theorem C6_aggregateStats_resets_then_adds:
  assumes "aggregateStats env stat w = (err, stat1, w1)"
  shows "Count stat1 = of_nat (length (summedEpisodes env (EpisodesURLs stat)))
       \<and> TotalSize stat1 = sum_list (sizesOf env (summedEpisodes env (EpisodesURLs stat)))
       \<and> prefix (summedEpisodes env (EpisodesURLs stat)) (seriesEpisodes env stat)
       \<and> (\<forall>e \<in> set (summedEpisodes env (EpisodesURLs stat)).
             fst (getEpisodeSize env (PlayURL e) emptyWorld) = Inr (sizeOf env (PlayURL e)))
       \<and> (err = None \<longleftrightarrow>
             (\<forall>url \<in> set (EpisodesURLs stat).
                fst (getEpisodes env url emptyWorld) = Inr (episodesOf env url))
             \<and> (\<forall>e \<in> set (seriesEpisodes env stat).
                fst (getEpisodeSize env (PlayURL e) emptyWorld) = Inr (sizeOf env (PlayURL e))))
       \<and> (err = None \<longrightarrow> summedEpisodes env (EpisodesURLs stat) = seriesEpisodes env stat)
       \<and> (\<forall>urls acc w0.
             Count (fst (snd (aggregateURLs env urls acc w0)))
               = Count acc + of_nat (length (summedEpisodes env urls))
             \<and> TotalSize (fst (snd (aggregateURLs env urls acc w0)))
               = TotalSize acc + sum_list (sizesOf env (summedEpisodes env urls)))
       \<and> (\<forall>episodes acc w0.
             Count (fst (snd (sumEpisodes env episodes acc w0)))
               = Count acc + of_nat (length (takeWhile (sizeKnown env) episodes))
             \<and> TotalSize (fst (snd (sumEpisodes env episodes acc w0)))
               = TotalSize acc + sum_list (sizesOf env (takeWhile (sizeKnown env) episodes)))
       \<and> 0 \<le> unat (Count stat1)
       \<and> (length (summedEpisodes env (EpisodesURLs stat)) < 2 ^ 32
            \<longrightarrow> unat (Count stat1) = length (summedEpisodes env (EpisodesURLs stat)))
       \<and> ((\<forall>s \<in> set (sizesOf env (summedEpisodes env (EpisodesURLs stat))). 0 \<le> sint s)
            \<and> sum_list (map sint (sizesOf env (summedEpisodes env (EpisodesURLs stat)))) < 2 ^ 63
           \<longrightarrow> (\<forall>i < length (summedEpisodes env (EpisodesURLs stat)).
                  sint (sum_list (take i (sizesOf env (summedEpisodes env (EpisodesURLs stat)))))
                    \<le> sint (sum_list (take (Suc i)
                          (sizesOf env (summedEpisodes env (EpisodesURLs stat))))))
               \<and> sint (TotalSize stat1)
                   = sum_list (map sint (sizesOf env (summedEpisodes env (EpisodesURLs stat))))
               \<and> 0 \<le> sint (TotalSize stat1))"
proof -
  let ?urls = "EpisodesURLs stat"
  let ?summed = "summedEpisodes env ?urls"
  let ?sizes = "sizesOf env ?summed"
  let ?zero = "stat\<lparr>Count := 0, TotalSize := 0\<rparr>"
  from assms have run: "aggregateURLs env ?urls ?zero w = (err, stat1, w1)"
    by (simp add: aggregateStats_def)
  note x = aggregateURLs_exact [OF run]
  have c: "Count stat1 = of_nat (length ?summed)"
    using x by simp
  have t: "TotalSize stat1 = sum_list ?sizes"
    using x by simp
  have p: "prefix ?summed (seriesEpisodes env stat)"
    unfolding seriesEpisodes_def by (rule summedEpisodes_prefix)
  have k: "\<forall>e \<in> set ?summed.
             fst (getEpisodeSize env (PlayURL e) emptyWorld) = Inr (sizeOf env (PlayURL e))"
    using summedEpisodes_known [of env ?urls] by (simp add: list_all_iff sizeKnown_iff)
  have e: "err = None \<longleftrightarrow>
             (\<forall>url \<in> set ?urls. fst (getEpisodes env url emptyWorld) = Inr (episodesOf env url))
             \<and> (\<forall>e \<in> set (seriesEpisodes env stat).
                fst (getEpisodeSize env (PlayURL e) emptyWorld) = Inr (sizeOf env (PlayURL e)))"
    using x by (simp add: list_all_iff sizeKnown_iff seriesEpisodes_def)
  have a: "?summed = seriesEpisodes env stat" if "err = None"
    unfolding seriesEpisodes_def using x that by (intro summedEpisodes_all) simp_all
  have lu: "Count (fst (snd (aggregateURLs env urls acc w0)))
               = Count acc + of_nat (length (summedEpisodes env urls))
             \<and> TotalSize (fst (snd (aggregateURLs env urls acc w0)))
               = TotalSize acc + sum_list (sizesOf env (summedEpisodes env urls))"
    for urls acc w0
    using aggregateURLs_exact [of env urls acc w0
        "fst (aggregateURLs env urls acc w0)" "fst (snd (aggregateURLs env urls acc w0))"
        "snd (snd (aggregateURLs env urls acc w0))"]
    by simp
  have le: "Count (fst (snd (sumEpisodes env episodes acc w0)))
               = Count acc + of_nat (length (takeWhile (sizeKnown env) episodes))
             \<and> TotalSize (fst (snd (sumEpisodes env episodes acc w0)))
               = TotalSize acc + sum_list (sizesOf env (takeWhile (sizeKnown env) episodes))"
    for episodes acc w0
    using sumEpisodes_exact [of env episodes acc w0
        "fst (sumEpisodes env episodes acc w0)" "fst (snd (sumEpisodes env episodes acc w0))"
        "snd (snd (sumEpisodes env episodes acc w0))"]
    by simp
  have u: "unat (Count stat1) = length ?summed" if "length ?summed < 2 ^ 32"
    using that c by (simp add: unat_count)
  have m: "(\<forall>i < length ?summed.
              sint (sum_list (take i ?sizes)) \<le> sint (sum_list (take (Suc i) ?sizes)))
         \<and> sint (TotalSize stat1) = sum_list (map sint ?sizes)
         \<and> 0 \<le> sint (TotalSize stat1)"
    if nonneg: "\<forall>s \<in> set ?sizes. 0 \<le> sint s"
      and bound: "sum_list (map sint ?sizes) < 2 ^ 63"
  proof -
    from nonneg have nn: "\<forall>x \<in> set (map sint ?sizes). 0 \<le> x" by simp
    have q: "sint (sum_list (take i ?sizes)) = sum_list (take i (map sint ?sizes))" for i
    proof -
      from sum_take_nonneg [OF nn, of i] bound
      have "- (2 ^ 63) \<le> sum_list (map sint (take i ?sizes))"
           "sum_list (map sint (take i ?sizes)) < 2 ^ 63"
        by (simp_all add: take_map)
      then show ?thesis by (simp add: sint_sum_list take_map)
    qed
    have f: "sint (sum_list ?sizes) = sum_list (map sint ?sizes)"
      using q [of "length ?sizes"] by simp
    have z: "0 \<le> sum_list (map sint ?sizes)"
      using nn by (intro sum_list_nonneg) blast
    show ?thesis
      using sum_take_nonneg [OF nn] by (simp add: q t f z)
  qed
  show ?thesis
  proof (intro conjI allI)
    show "Count stat1 = of_nat (length ?summed)" by (rule c)
    show "TotalSize stat1 = sum_list ?sizes" by (rule t)
    show "prefix ?summed (seriesEpisodes env stat)" by (rule p)
    show "\<forall>e \<in> set ?summed.
             fst (getEpisodeSize env (PlayURL e) emptyWorld) = Inr (sizeOf env (PlayURL e))"
      by (rule k)
    show "err = None \<longleftrightarrow>
             (\<forall>url \<in> set ?urls. fst (getEpisodes env url emptyWorld) = Inr (episodesOf env url))
             \<and> (\<forall>e \<in> set (seriesEpisodes env stat).
                fst (getEpisodeSize env (PlayURL e) emptyWorld) = Inr (sizeOf env (PlayURL e)))"
      by (rule e)
    show "err = None \<longrightarrow> ?summed = seriesEpisodes env stat" using a by blast
    show "Count (fst (snd (aggregateURLs env urls acc w0)))
               = Count acc + of_nat (length (summedEpisodes env urls))"
      for urls acc w0 using lu by blast
    show "TotalSize (fst (snd (aggregateURLs env urls acc w0)))
               = TotalSize acc + sum_list (sizesOf env (summedEpisodes env urls))"
      for urls acc w0 using lu by blast
    show "Count (fst (snd (sumEpisodes env episodes acc w0)))
               = Count acc + of_nat (length (takeWhile (sizeKnown env) episodes))"
      for episodes acc w0 using le by blast
    show "TotalSize (fst (snd (sumEpisodes env episodes acc w0)))
               = TotalSize acc + sum_list (sizesOf env (takeWhile (sizeKnown env) episodes))"
      for episodes acc w0 using le by blast
    show "0 \<le> unat (Count stat1)" by simp
    show "length ?summed < 2 ^ 32 \<longrightarrow> unat (Count stat1) = length ?summed"
      using u by blast
    show "(\<forall>s \<in> set ?sizes. 0 \<le> sint s) \<and> sum_list (map sint ?sizes) < 2 ^ 63
           \<longrightarrow> (\<forall>i < length ?summed.
                  sint (sum_list (take i ?sizes)) \<le> sint (sum_list (take (Suc i) ?sizes)))
               \<and> sint (TotalSize stat1) = sum_list (map sint ?sizes)
               \<and> 0 \<le> sint (TotalSize stat1)"
      using m by blast
  qed
qed

lemma summedEpisodes_failingA:
  "summedEpisodes failingEnv [''/a1'', ''/a2''] = [\<lparr>PlayURL = ''/play/a1'', CmdURL = ''/cmd/a1''\<rparr>]"
  by (simp add: sizeKnown_def failingEnv_def failingDevice_def scenario_defs run_defs)

lemma sizesOf_failingA:
  "sizesOf failingEnv [\<lparr>PlayURL = ''/play/a1'', CmdURL = ''/cmd/a1''\<rparr>] = [1073741824]"
  by (simp add: sizesOf_def sizeOf_def failingEnv_def failingDevice_def scenario_defs run_defs)

theorem C6_aggregateStats_resets_then_adds_witness:
  "fst (aggregateStats failingEnv (statA\<lparr>Count := 7, TotalSize := - 5\<rparr>) emptyWorld)
     = Some (Error ''/a2 returned status 500'')
   \<and> summedEpisodes failingEnv (EpisodesURLs (statA\<lparr>Count := 7, TotalSize := - 5\<rparr>))
       = [\<lparr>PlayURL = ''/play/a1'', CmdURL = ''/cmd/a1''\<rparr>]
   \<and> unat (Count (fst (snd (aggregateStats failingEnv (statA\<lparr>Count := 7, TotalSize := - 5\<rparr>)
        emptyWorld)))) = 1
   \<and> sint (TotalSize (fst (snd (aggregateStats failingEnv (statA\<lparr>Count := 7, TotalSize := - 5\<rparr>)
        emptyWorld)))) = 1073741824"
proof -
  let ?stat = "statA\<lparr>Count := 7, TotalSize := - 5\<rparr>"
  have u: "EpisodesURLs ?stat = [''/a1'', ''/a2'']"
    by (simp add: statA_def)
  have e: "aggregateStats failingEnv ?stat emptyWorld = aggregateStats failingEnv statA emptyWorld"
    by (simp add: aggregateStats_def)
  have r: "aggregateStats failingEnv ?stat emptyWorld =
     (fst (aggregateStats failingEnv ?stat emptyWorld),
      fst (snd (aggregateStats failingEnv ?stat emptyWorld)),
      snd (snd (aggregateStats failingEnv ?stat emptyWorld)))"
    by simp
  note t = C6_aggregateStats_resets_then_adds [OF r, unfolded u summedEpisodes_failingA
      sizesOf_failingA]
  from t have c: "Count (fst (snd (aggregateStats failingEnv ?stat emptyWorld))) = 1"
    by simp
  from t have s: "TotalSize (fst (snd (aggregateStats failingEnv ?stat emptyWorld))) = 1073741824"
    by simp
  have f: "fst (aggregateStats failingEnv ?stat emptyWorld) = Some (Error ''/a2 returned status 500'')"
    unfolding e by (simp add: aggregateStats_failingA)
  show ?thesis
    unfolding u summedEpisodes_failingA c s using f by simp
qed

text \<open>
  The claim as stated fails for a response without a \<^verbatim>\<open>Content-Length\<close> header: its
  content length is \<open>- 1\<close>, and the total size of the series ends below zero.
\<close>

theorem C6_total_size_negative_counterexample:
  "fst (aggregateStats noLengthEnv statB emptyWorld) = None
   \<and> sint (TotalSize (fst (snd (aggregateStats noLengthEnv statB emptyWorld)))) = - 1
   \<and> \<not> 0 \<le> sint (TotalSize (fst (snd (aggregateStats noLengthEnv statB emptyWorld))))"
  by (simp add: aggregateStats_noLengthB)

section \<open>Rendering of sizes\<close>

lemma roundHalfEven_fraction:
  assumes "0 < q"
  shows "roundHalfEven (of_int p / of_int q) =
           (if 2 * (p mod q) > q \<or> (2 * (p mod q) = q \<and> odd (p div q))
            then p div q + 1 else p div q)"
proof -
  have fl: "\<lfloor>of_int p / of_int q :: rat\<rfloor> = p div q"
    by (rule floor_divide_of_int_eq)
  have "of_int p = (of_int (p div q) * of_int q + of_int (p mod q) :: rat)"
    by (metis div_mult_mod_eq of_int_add of_int_mult)
  then have fr: "of_int p / of_int q - of_int (p div q) = (of_int (p mod q) / of_int q :: rat)"
    using assms by (simp add: field_simps)
  have gt: "(of_int (p mod q) / of_int q :: rat) > 1 / 2 \<longleftrightarrow> 2 * (p mod q) > q"
  proof -
    have "(of_int (p mod q) / of_int q :: rat) > 1 / 2 \<longleftrightarrow> (of_int q :: rat) < of_int (2 * (p mod q))"
      using assms by (simp add: field_simps)
    also have "\<dots> \<longleftrightarrow> q < 2 * (p mod q)" by (rule of_int_less_iff)
    finally show ?thesis .
  qed
  have eq: "(of_int (p mod q) / of_int q :: rat) = 1 / 2 \<longleftrightarrow> 2 * (p mod q) = q"
  proof -
    have "(of_int (p mod q) / of_int q :: rat) = 1 / 2 \<longleftrightarrow> (of_int (2 * (p mod q)) :: rat) = of_int q"
      using assms by (auto simp: field_simps)
    also have "\<dots> \<longleftrightarrow> 2 * (p mod q) = q" by (rule of_int_eq_iff)
    finally show ?thesis .
  qed
  show ?thesis
    unfolding roundHalfEven_def Let_def fl fr gt eq by simp
qed

lemma fmt_2f_fraction:
  assumes "0 < q"
  shows "fmt_2f (of_int p / of_int q) =
           (let n = \<bar>p\<bar> * 100;
                h = nat (if 2 * (n mod q) > q \<or> (2 * (n mod q) = q \<and> odd (n div q))
                         then n div q + 1 else n div q)
            in (if p < 0 then ''-'' else []) @ showNat (h div 100) @ ''.''
                 @ showNat (h mod 100 div 10) @ showNat (h mod 10))"
proof -
  have q: "0 < (of_int q :: rat)"
    using assms by simp
  have "\<bar>of_int p / of_int q :: rat\<bar> = \<bar>of_int p\<bar> / of_int q"
    using q by (simp only: abs_divide abs_of_pos)
  then have a: "\<bar>of_int p / of_int q :: rat\<bar> * 100 = of_int (\<bar>p\<bar> * 100) / of_int q"
    by simp
  have "(of_int p / of_int q :: rat) < 0 \<longleftrightarrow> (of_int p :: rat) < 0"
    using q by (simp add: divide_less_0_iff)
  then have n: "(of_int p / of_int q :: rat) < 0 \<longleftrightarrow> p < 0"
    by simp
  show ?thesis
    unfolding fmt_2f_def a n roundHalfEven_fraction [OF assms] Let_def by simp
qed

lemma fmt_2f_sizeGB:
  "fmt_2f (sizeGB stat) =
     (let n = \<bar>float64 (TotalSize stat)\<bar> * 100;
          h = nat (if 2 * (n mod 1073741824) > 1073741824
                      \<or> (2 * (n mod 1073741824) = 1073741824 \<and> odd (n div 1073741824))
                   then n div 1073741824 + 1 else n div 1073741824)
      in (if float64 (TotalSize stat) < 0 then ''-'' else []) @ showNat (h div 100) @ ''.''
           @ showNat (h mod 100 div 10) @ showNat (h mod 10))"
proof -
  have h: "sizeGB stat = of_int (float64 (TotalSize stat)) / of_int 1073741824"
    by (simp add: sizeGB_def)
  show ?thesis
    unfolding h by (rule fmt_2f_fraction) simp
qed

lemma float64_exact:
  "\<bar>sint x\<bar> < 2 ^ 53 \<Longrightarrow> float64 x = sint x"
  unfolding float64_def Let_def by (auto simp: nat_less_iff)

lemma roundHalfEven_near:
  "\<bar>of_int (roundHalfEven v) - v\<bar> \<le> 1 / 2"
proof -
  define f where "f = v - of_int \<lfloor>v\<rfloor>"
  have f: "0 \<le> f" "f < 1"
    unfolding f_def by linarith+
  show ?thesis
  proof (cases "f > 1 / 2 \<or> (f = 1 / 2 \<and> odd \<lfloor>v\<rfloor>)")
    case True
    then have "roundHalfEven v = \<lfloor>v\<rfloor> + 1"
      by (simp add: roundHalfEven_def Let_def f_def)
    then have "of_int (roundHalfEven v) - v = 1 - f"
      by (simp add: f_def)
    moreover from True have "1 / 2 \<le> f" by auto
    ultimately show ?thesis using f by simp
  next
    case False
    then have "roundHalfEven v = \<lfloor>v\<rfloor>"
      by (simp add: roundHalfEven_def Let_def f_def)
    then have "of_int (roundHalfEven v) - v = - f"
      by (simp add: f_def)
    moreover from False have "f \<le> 1 / 2" by auto
    ultimately show ?thesis using f by simp
  qed
qed

lemma roundHalfEven_nonneg:
  "0 \<le> v \<Longrightarrow> 0 \<le> roundHalfEven v"
  unfolding roundHalfEven_def Let_def by auto

lemma showNat_digit:
  "n < 10 \<Longrightarrow> showNat n = [''0123456789'' ! n]"
  by (simp add: showNat.simps)

lemma showNat_digit_length:
  "n < 10 \<Longrightarrow> length (showNat n) = 1"
  by (simp add: showNat_digit)

text \<open>
  What \<^verbatim>\<open>%.2f\<close> prints: an optional sign, the decimal digits of the whole part, a point
  and two digits, for the number of hundredths nearest to the value.
\<close>

lemma fmt_2f_hundredths:
  "\<exists>h. fmt_2f v = (if v < 0 then ''-'' else []) @ showNat (h div 100) @ ''.''
                    @ showNat (h mod 100 div 10) @ showNat (h mod 10)
       \<and> length (showNat (h mod 100 div 10)) = 1 \<and> length (showNat (h mod 10)) = 1
       \<and> \<bar>of_nat h / 100 - \<bar>v\<bar>\<bar> \<le> 1 / 200"
proof -
  let ?r = "roundHalfEven (\<bar>v\<bar> * 100)"
  let ?h = "nat ?r"
  have nn: "0 \<le> ?r" by (rule roundHalfEven_nonneg) simp
  then have h: "(of_nat ?h :: rat) = of_int ?r" by simp
  have "\<bar>of_int ?r - \<bar>v\<bar> * 100\<bar> \<le> 1 / 2" by (rule roundHalfEven_near)
  then have "\<bar>(of_int ?r - \<bar>v\<bar> * 100) / 100\<bar> \<le> (1 / 2) / 100"
    by (simp only: abs_divide) (simp add: divide_right_mono)
  then have d: "\<bar>of_nat ?h / 100 - \<bar>v\<bar>\<bar> \<le> 1 / 200"
    unfolding h by (simp add: diff_divide_distrib)
  have "?h mod 100 div 10 < 10" "?h mod 10 < 10" by simp_all
  then have l: "length (showNat (?h mod 100 div 10)) = 1" "length (showNat (?h mod 10)) = 1"
    by (simp_all add: showNat_digit_length)
  show ?thesis
    by (rule exI [of _ ?h]) (use d l in \<open>simp add: fmt_2f_def Let_def\<close>)
qed

lemma bitLength_le:
  "n < 2 ^ k \<Longrightarrow> bitLength n \<le> k"
proof (induction k arbitrary: n)
  case 0
  then show ?case by (simp add: bitLength.simps)
next
  case (Suc k)
  from Suc.prems have "n div 2 < 2 ^ k" by simp
  from Suc.IH [OF this] show ?case
    by (subst bitLength.simps) simp
qed

text \<open>The conversion to \<^verbatim>\<open>float64\<close> moves a 64-bit integer by at most \<open>2 ^ 10\<close>.\<close>

lemma float64_near:
  "\<bar>float64 x - sint x\<bar> \<le> 1024"
proof (cases "nat \<bar>sint x\<bar> < 2 ^ 53")
  case True
  then show ?thesis by (simp add: float64_def Let_def)
next
  case False
  define a where "a = nat \<bar>sint x\<bar>"
  define e where "e = bitLength a - 53"
  define r where "r = roundHalfEven (of_nat a / 2 ^ e)"
  have "sint x \<ge> - (2 ^ 63)" "sint x < 2 ^ 63"
    using sint_range_size [of x] by (simp_all add: word_size)
  then have "a < 2 ^ 64" unfolding a_def by (simp add: nat_less_iff abs_if)
  then have "bitLength a \<le> 64" by (rule bitLength_le)
  then have e: "e \<le> 11" unfolding e_def by simp
  have f: "float64 x = sgn (sint x) * r * 2 ^ e"
    using False by (simp add: float64_def Let_def a_def e_def r_def)
  have "\<bar>of_int r - of_nat a / 2 ^ e\<bar> \<le> (1 / 2 :: rat)"
    unfolding r_def by (rule roundHalfEven_near)
  then have "\<bar>of_int r - of_nat a / 2 ^ e\<bar> * 2 ^ e \<le> (1 / 2 :: rat) * 2 ^ e"
    by (rule mult_right_mono) simp
  then have "\<bar>(of_int r - of_nat a / 2 ^ e) * 2 ^ e\<bar> \<le> (1 / 2 :: rat) * 2 ^ e"
    by (simp add: abs_mult)
  then have "\<bar>of_int r * 2 ^ e - of_nat a\<bar> \<le> (1 / 2 :: rat) * 2 ^ e"
    by (simp add: left_diff_distrib)
  moreover have "(2 :: rat) ^ e \<le> 2 ^ 11"
    using e by (intro power_increasing) simp_all
  ultimately have "\<bar>of_int r * 2 ^ e - of_nat a\<bar> \<le> (1024 :: rat)"
    by simp
  then have "\<bar>(of_int (r * 2 ^ e - int a) :: rat)\<bar> \<le> of_int 1024"
    by simp
  then have d: "\<bar>r * 2 ^ e - int a\<bar> \<le> 1024"
    by (simp only: of_int_le_iff flip: of_int_abs)
  have s: "sint x = sgn (sint x) * int a"
    unfolding a_def by (simp add: sgn_if abs_if)
  have "sgn (sint x) * r * 2 ^ e - sgn (sint x) * int a = sgn (sint x) * (r * 2 ^ e - int a)"
    by (simp add: right_diff_distrib mult.assoc)
  with f s have "float64 x - sint x = sgn (sint x) * (r * 2 ^ e - int a)"
    by simp
  then have "\<bar>float64 x - sint x\<bar> = \<bar>sgn (sint x)\<bar> * \<bar>r * 2 ^ e - int a\<bar>"
    by (simp add: abs_mult)
  also have "\<dots> \<le> \<bar>r * 2 ^ e - int a\<bar>"
    by (simp add: sgn_if)
  finally show ?thesis using d by simp
qed

text \<open>
  Claim C9. The third cell of a row is \<^verbatim>\<open>%.2f\<close> of the total size divided by \<open>1024^3\<close>,
  followed by \<open>GB\<close>: a sign if the value is negative, the whole part, a point and two
  digits, for the number of hundredths nearest to the quotient. The quotient is exact
  below \<open>2 ^ 53\<close> bytes, and beyond that it is the quotient of a number at most 1024
  away from the total size. A total size of 1073741824 renders as \<open>1.00 GB\<close> and a total
  size of 0 as \<open>0.00 GB\<close>.
\<close>

theorem C9_storage_column_two_decimals:
  "tableRow stat =
     Title stat @ tab @ showNat (unat (Count stat)) @ tab @ fmt_2f (sizeGB stat) @ '' GB'' @ tab @ nl
   \<and> fmt_2f (sizeGB (stat\<lparr>TotalSize := 1073741824\<rparr>)) @ '' GB'' = ''1.00 GB''
   \<and> fmt_2f (sizeGB (stat\<lparr>TotalSize := 0\<rparr>)) @ '' GB'' = ''0.00 GB''
   \<and> (\<bar>sint (TotalSize stat)\<bar> < 2 ^ 53
        \<longrightarrow> sizeGB stat = of_int (sint (TotalSize stat)) / 1024 ^ 3)
   \<and> (\<exists>m. sizeGB stat = of_int m / 1024 ^ 3 \<and> \<bar>m - sint (TotalSize stat)\<bar> \<le> 1024)
   \<and> (\<exists>h. fmt_2f (sizeGB stat)
             = (if sizeGB stat < 0 then ''-'' else []) @ showNat (h div 100) @ ''.''
                 @ showNat (h mod 100 div 10) @ showNat (h mod 10)
          \<and> length (showNat (h mod 100 div 10)) = 1 \<and> length (showNat (h mod 10)) = 1
          \<and> \<bar>of_nat h / 100 - \<bar>sizeGB stat\<bar>\<bar> \<le> 1 / 200)"
proof (intro conjI impI)
  show "tableRow stat =
     Title stat @ tab @ showNat (unat (Count stat)) @ tab @ fmt_2f (sizeGB stat) @ '' GB'' @ tab @ nl"
    by (simp add: tableRow_def)
  show "fmt_2f (sizeGB (stat\<lparr>TotalSize := 1073741824\<rparr>)) @ '' GB'' = ''1.00 GB''"
    by (simp add: fmt_2f_sizeGB float64_exact Let_def showNat.simps)
  show "fmt_2f (sizeGB (stat\<lparr>TotalSize := 0\<rparr>)) @ '' GB'' = ''0.00 GB''"
    by (simp add: fmt_2f_sizeGB float64_exact Let_def showNat.simps)
  show "sizeGB stat = of_int (sint (TotalSize stat)) / 1024 ^ 3"
    if "\<bar>sint (TotalSize stat)\<bar> < 2 ^ 53"
    using that by (simp add: sizeGB_def float64_exact)
  show "\<exists>m. sizeGB stat = of_int m / 1024 ^ 3 \<and> \<bar>m - sint (TotalSize stat)\<bar> \<le> 1024"
    by (rule exI [of _ "float64 (TotalSize stat)"]) (simp add: sizeGB_def float64_near)
  show "\<exists>h. fmt_2f (sizeGB stat)
             = (if sizeGB stat < 0 then ''-'' else []) @ showNat (h div 100) @ ''.''
                 @ showNat (h mod 100 div 10) @ showNat (h mod 10)
          \<and> length (showNat (h mod 100 div 10)) = 1 \<and> length (showNat (h mod 10)) = 1
          \<and> \<bar>of_nat h / 100 - \<bar>sizeGB stat\<bar>\<bar> \<le> 1 / 200"
    by (rule fmt_2f_hundredths)
qed

theorem C9_storage_column_two_decimals_witness:
  "\<bar>sint (TotalSize (statB\<lparr>TotalSize := 536870912\<rparr>))\<bar> < 2 ^ 53
   \<and> sizeGB (statB\<lparr>TotalSize := 536870912\<rparr>) = 1 / 2
   \<and> tableRow (statB\<lparr>TotalSize := 536870912\<rparr>)
       = ''Beta'' @ tab @ ''1'' @ tab @ ''0.50 GB'' @ tab @ nl"
proof -
  have h: "\<bar>sint (TotalSize (statB\<lparr>TotalSize := 536870912\<rparr>))\<bar> < 2 ^ 53"
    by simp
  have s: "sizeGB (statB\<lparr>TotalSize := 536870912\<rparr>) = 1 / 2"
    using C9_storage_column_two_decimals [of "statB\<lparr>TotalSize := 536870912\<rparr>"] h by simp
  have f: "fmt_2f (1 / 2) = ''0.50''"
    using fmt_2f_fraction [of 2 1] by (simp add: showNat.simps)
  have r: "tableRow (statB\<lparr>TotalSize := 536870912\<rparr>)
             = ''Beta'' @ tab @ ''1'' @ tab @ ''0.50 GB'' @ tab @ nl"
    unfolding C9_storage_column_two_decimals [of "statB\<lparr>TotalSize := 536870912\<rparr>", THEN conjunct1]
      s f
    by (simp add: statB_def showNat.simps)
  from h s r show ?thesis by blast
qed

section \<open>Presentation\<close>

lemma cmpTotalSize_not_less:
  "\<not> cmpTotalSize b a < 0 \<longleftrightarrow> sint (TotalSize a) \<le> sint (TotalSize b)"
  by (simp add: cmpTotalSize_def)

text \<open>
  The comparison is a strict weak ordering, as \<^verbatim>\<open>slices.SortFunc\<close> requires of it: it
  is the sign of the difference of the keys.
\<close>

lemma cmpTotalSize_sign:
  "cmpTotalSize a b = sgn (sint (TotalSize a) - sint (TotalSize b))"
  by (simp add: cmpTotalSize_def sgn_if)

lemma isSortedFunc_sorted:
  "isSortedFunc cmpTotalSize stats \<longleftrightarrow> sorted (map (\<lambda>stat. sint (TotalSize stat)) stats)"
  by (induction cmpTotalSize stats rule: isSortedFunc.induct)
     (auto simp: cmpTotalSize_not_less intro: order_trans)

lemma printSeriesMap_stdout:
  "stdout (printSeriesMap env seriesMap w) =
     stdout w
     @ [tabwriter env 0 0 3 CHR '' '' 0
          (tableHeader @ concat (map tableRow (sortedStats env seriesMap))),
        nl @ ''Total Series Found: '' @ showNat (length seriesMap) @ nl]"
  by (simp add: printSeriesMap_def writeOut_def tableHeader_def Let_def)

lemma printSeriesMap_requests:
  "requests (printSeriesMap env seriesMap w) = requests w"
  by (simp add: printSeriesMap_def writeOut_def Let_def)

text \<open>
  The comparison that \<^verbatim>\<open>printSeriesMap\<close> passes is a strict weak ordering, so the
  promise of \<^verbatim>\<open>slices.SortFunc\<close> applies to the call.
\<close>

lemma strictWeakOrder_cmpTotalSize:
  "strictWeakOrder cmpTotalSize"
  unfolding strictWeakOrder_def cmpTotalSize_def by auto

text \<open>
  Claim C5. The table is the header followed by one row for each element of the slice
  that \<^verbatim>\<open>slices.SortFunc\<close> has sorted, in its order. With \<^verbatim>\<open>slices.SortFunc\<close> keeping
  its documented promise, the rows are the values that \<^verbatim>\<open>range\<close> produced from the map
  (all the values of the map when \<^verbatim>\<open>range\<close> visits every entry once), and each row's
  total size is at most that of the next row, and of every later row.
\<close>

theorem C5_rows_ascending_by_total_size:
  assumes "sortFuncContract env"
  shows "stdout (printSeriesMap env seriesMap w) =
           stdout w
           @ [tabwriter env 0 0 3 CHR '' '' 0
                (tableHeader @ concat (map tableRow (sortedStats env seriesMap))),
              nl @ ''Total Series Found: '' @ showNat (length seriesMap) @ nl]
       \<and> mset (sortedStats env seriesMap) = mset (map snd (mapRange env seriesMap))
       \<and> (rangeContract env \<longrightarrow> mset (sortedStats env seriesMap) = mset (map snd seriesMap))
       \<and> (\<forall>i. Suc i < length (sortedStats env seriesMap) \<longrightarrow>
              sint (TotalSize (sortedStats env seriesMap ! i))
                \<le> sint (TotalSize (sortedStats env seriesMap ! Suc i)))
       \<and> sorted_wrt (\<lambda>a b. sint (TotalSize a) \<le> sint (TotalSize b)) (sortedStats env seriesMap)"
proof -
  let ?rows = "sortedStats env seriesMap"
  let ?vals = "map snd (mapRange env seriesMap)"
  have r: "?rows = sortFunc env cmpTotalSize ?vals"
    by (simp add: sortedStats_def)
  from assms strictWeakOrder_cmpTotalSize
  have c: "isSortedFunc cmpTotalSize (sortFunc env cmpTotalSize ?vals)
           \<and> mset (sortFunc env cmpTotalSize ?vals) = mset ?vals"
    unfolding sortFuncContract_def by blast
  from c have s: "sorted (map (\<lambda>stat. sint (TotalSize stat)) ?rows)"
    unfolding r by (simp add: isSortedFunc_sorted)
  then have w: "sorted_wrt (\<lambda>a b. sint (TotalSize a) \<le> sint (TotalSize b)) ?rows"
    by (simp add: sorted_map)
  have n: "sint (TotalSize (?rows ! i)) \<le> sint (TotalSize (?rows ! Suc i))"
    if "Suc i < length ?rows" for i
    using w that by (simp add: sorted_wrt_iff_nth_less)
  from c have m: "mset ?rows = mset ?vals"
    unfolding r by simp
  have g: "mset ?rows = mset (map snd seriesMap)" if "rangeContract env"
  proof -
    from that have "mset (mapRange env seriesMap) = mset seriesMap"
      unfolding rangeContract_def by blast
    then have "mset ?vals = mset (map snd seriesMap)"
      by (metis mset_map)
    with m show ?thesis by simp
  qed
  from printSeriesMap_stdout m g n w show ?thesis by blast
qed

lemma fetchRecordings_world:
  "fetchRecordings env url w =
     (fst (fetchRecordings env url emptyWorld),
      w\<lparr>requests := requests w @ [\<lparr>Method = GET, URL = url, ClientTimeout = 0\<rparr>]\<rparr>)"
  by (simp add: fetchRecordings_def http_Get_def DefaultClient_def Client_Get_def Client_Do_def
      Let_def split: sum.split)

lemma fetchRecordings_scenario:
  "fst (fetchRecordings scenarioEnv ''http://10.0.0.5:80'' emptyWorld) = Inr scenarioRecordings"
  by (simp add: fetchRecordings_def http_Get_def DefaultClient_def Client_Get_def Client_Do_def
      Let_def scenarioEnv_def scenario_defs)

lemma aggregateAll_scenario:
  "aggregateAll scenarioEnv [(''A'', statA), (''B'', statB)] [] w =
     ([(''A'', statA\<lparr>Count := 2, TotalSize := 2147483648\<rparr>),
       (''B'', statB\<lparr>Count := 1, TotalSize := 536870912\<rparr>)],
      w\<lparr>requests := requests w @
         [\<lparr>Method = GET, URL = ''/a1'', ClientTimeout = 5 * Second\<rparr>,
          \<lparr>Method = HEAD, URL = ''/play/a1'', ClientTimeout = 5 * Second\<rparr>,
          \<lparr>Method = GET, URL = ''/a2'', ClientTimeout = 5 * Second\<rparr>,
          \<lparr>Method = HEAD, URL = ''/play/a2'', ClientTimeout = 5 * Second\<rparr>,
          \<lparr>Method = GET, URL = ''/b1'', ClientTimeout = 5 * Second\<rparr>,
          \<lparr>Method = HEAD, URL = ''/play/b1'', ClientTimeout = 5 * Second\<rparr>]\<rparr>)"
  by (simp add: scenarioEnv_def statA_def statB_def scenario_defs run_defs)

lemma sortedStats_scenario:
  "sortedStats scenarioEnv
     [(''A'', statA\<lparr>Count := 2, TotalSize := 2147483648\<rparr>),
      (''B'', statB\<lparr>Count := 1, TotalSize := 536870912\<rparr>)]
   = [statB\<lparr>Count := 1, TotalSize := 536870912\<rparr>, statA\<lparr>Count := 2, TotalSize := 2147483648\<rparr>]"
  by (simp add: sortedStats_def scenarioEnv_def deviceEnv_def insertionSort_def cmpTotalSize_def
      statA_def statB_def)

lemma tableRow_eval:
  assumes "\<bar>sint t\<bar> < 2 ^ 53"
  shows "tableRow \<lparr>Title = title, Count = c, TotalSize = t, EpisodesURLs = urls\<rparr> =
     title @ tab @ showNat (unat c) @ tab
     @ (let n = \<bar>sint t\<bar> * 100;
            h = nat (if 2 * (n mod 1073741824) > 1073741824
                        \<or> (2 * (n mod 1073741824) = 1073741824 \<and> odd (n div 1073741824))
                     then n div 1073741824 + 1 else n div 1073741824)
        in (if sint t < 0 then ''-'' else []) @ showNat (h div 100) @ ''.''
             @ showNat (h mod 100 div 10) @ showNat (h mod 10))
     @ '' GB'' @ tab @ nl"
proof -
  have f: "float64 t = sint t"
    by (rule float64_exact [OF assms])
  show ?thesis
    unfolding tableRow_def fmt_2f_sizeGB by (simp only: SeriesStat.select_convs f)
qed

lemma printSeriesMap_scenario:
  "stdout (printSeriesMap scenarioEnv
     [(''A'', statA\<lparr>Count := 2, TotalSize := 2147483648\<rparr>),
      (''B'', statB\<lparr>Count := 1, TotalSize := 536870912\<rparr>)] w)
   = stdout w
     @ [tableHeader
        @ (''Beta'' @ tab @ ''1'' @ tab @ ''0.50 GB'' @ tab @ nl)
        @ (''Alpha'' @ tab @ ''2'' @ tab @ ''2.00 GB'' @ tab @ nl),
        nl @ ''Total Series Found: 2'' @ nl]"
proof -
  have t: "tabwriter scenarioEnv 0 0 3 CHR '' '' 0 buf = buf" for buf
    by (simp add: scenarioEnv_def deviceEnv_def)
  have a: "tableRow (statA\<lparr>Count := 2, TotalSize := 2147483648\<rparr>)
             = ''Alpha'' @ tab @ ''2'' @ tab @ ''2.00 GB'' @ tab @ nl"
    by (simp add: statA_def tableRow_eval Let_def showNat.simps)
  have b: "tableRow (statB\<lparr>Count := 1, TotalSize := 536870912\<rparr>)
             = ''Beta'' @ tab @ ''1'' @ tab @ ''0.50 GB'' @ tab @ nl"
    by (simp add: statB_def tableRow_eval Let_def showNat.simps)
  have n: "showNat (length [(''A'', statA\<lparr>Count := 2, TotalSize := 2147483648\<rparr>),
      (''B'', statB\<lparr>Count := 1, TotalSize := 536870912\<rparr>)]) = ''2''"
    by (simp add: showNat.simps)
  show ?thesis
    unfolding printSeriesMap_stdout sortedStats_scenario t n
    by (simp add: a b)
qed

text \<open>Insertion sort keeps the promise of \<^verbatim>\<open>slices.SortFunc\<close>.\<close>

lemma mset_insertBy:
  "mset (insertBy cmp x ys) = add_mset x (mset ys)"
  by (induction ys) simp_all

lemma mset_insertionSort:
  "mset (insertionSort cmp xs) = mset xs"
  unfolding insertionSort_def by (induction xs) (simp_all add: mset_insertBy)

lemma insertBy_head:
  "insertBy cmp x ys \<noteq> [] \<and> (hd (insertBy cmp x ys) = x \<or> (ys \<noteq> [] \<and> hd (insertBy cmp x ys) = hd ys))"
  by (cases ys) simp_all

lemma isSortedFunc_insertBy:
  assumes "\<forall>a b. cmp a b < 0 \<longrightarrow> \<not> cmp b a < 0"
  shows "isSortedFunc cmp ys \<Longrightarrow> isSortedFunc cmp (insertBy cmp x ys)"
proof (induction ys)
  case Nil
  show ?case by simp
next
  case (Cons y ys)
  show ?case
  proof (cases "cmp x y < 0")
    case True
    with assms have "\<not> cmp y x < 0" by blast
    with True Cons.prems show ?thesis by simp
  next
    case False
    from Cons.prems have t: "isSortedFunc cmp ys"
      by (cases ys) simp_all
    from Cons.IH [OF t] have i: "isSortedFunc cmp (insertBy cmp x ys)" .
    obtain z zs where z: "insertBy cmp x ys = z # zs"
      using insertBy_head [of cmp x ys] by (cases "insertBy cmp x ys") auto
    have "\<not> cmp z y < 0"
    proof (cases ys)
      case Nil
      with z False show ?thesis by simp
    next
      case (Cons y' ys')
      with Cons.prems have "\<not> cmp y' y < 0" by simp
      with z Cons False show ?thesis by (auto split: if_splits)
    qed
    with i z False show ?thesis by simp
  qed
qed

lemma isSortedFunc_insertionSort:
  assumes "strictWeakOrder cmp"
  shows "isSortedFunc cmp (insertionSort cmp xs)"
proof -
  from assms have a: "\<forall>a b. cmp a b < 0 \<longrightarrow> \<not> cmp b a < 0"
    unfolding strictWeakOrder_def by (metis less_asym)
  show ?thesis
    unfolding insertionSort_def
    by (induction xs) (simp_all add: isSortedFunc_insertBy [OF a])
qed

lemma sortFuncContract_scenario:
  "sortFuncContract scenarioEnv"
  by (simp add: sortFuncContract_def scenarioEnv_def deviceEnv_def isSortedFunc_insertionSort
      mset_insertionSort)

lemma rangeContract_scenario:
  "rangeContract scenarioEnv"
  by (simp add: rangeContract_def scenarioEnv_def deviceEnv_def)

theorem C5_rows_ascending_by_total_size_witness:
  "sortFuncContract scenarioEnv
   \<and> rangeContract scenarioEnv
   \<and> map Title
        (sortedStats scenarioEnv
           [(''A'', statA\<lparr>Count := 2, TotalSize := 2147483648\<rparr>),
            (''B'', statB\<lparr>Count := 1, TotalSize := 536870912\<rparr>)]) = [''Beta'', ''Alpha'']
   \<and> sorted_wrt (\<lambda>a b. sint (TotalSize a) \<le> sint (TotalSize b))
        (sortedStats scenarioEnv
           [(''A'', statA\<lparr>Count := 2, TotalSize := 2147483648\<rparr>),
            (''B'', statB\<lparr>Count := 1, TotalSize := 536870912\<rparr>)])
   \<and> mset (sortedStats scenarioEnv
        [(''A'', statA\<lparr>Count := 2, TotalSize := 2147483648\<rparr>),
         (''B'', statB\<lparr>Count := 1, TotalSize := 536870912\<rparr>)])
      = {#statA\<lparr>Count := 2, TotalSize := 2147483648\<rparr>, statB\<lparr>Count := 1, TotalSize := 536870912\<rparr>#}
   \<and> stdout (printSeriesMap scenarioEnv
        [(''A'', statA\<lparr>Count := 2, TotalSize := 2147483648\<rparr>),
         (''B'', statB\<lparr>Count := 1, TotalSize := 536870912\<rparr>)] emptyWorld)
      = [tableHeader
         @ (''Beta'' @ tab @ ''1'' @ tab @ ''0.50 GB'' @ tab @ nl)
         @ (''Alpha'' @ tab @ ''2'' @ tab @ ''2.00 GB'' @ tab @ nl),
         nl @ ''Total Series Found: 2'' @ nl]"
proof -
  let ?m = "[(''A'', statA\<lparr>Count := 2, TotalSize := 2147483648\<rparr>),
             (''B'', statB\<lparr>Count := 1, TotalSize := 536870912\<rparr>)]"
  note c5 = C5_rows_ascending_by_total_size [OF sortFuncContract_scenario, of ?m emptyWorld]
  have t: "map Title (sortedStats scenarioEnv ?m) = [''Beta'', ''Alpha'']"
    unfolding sortedStats_scenario by (simp add: statA_def statB_def)
  have w: "sorted_wrt (\<lambda>a b. sint (TotalSize a) \<le> sint (TotalSize b))
             (sortedStats scenarioEnv ?m)"
    using c5 by blast
  from c5 rangeContract_scenario
  have "mset (sortedStats scenarioEnv ?m) = mset (map snd ?m)"
    by blast
  then have g: "mset (sortedStats scenarioEnv ?m)
      = {#statA\<lparr>Count := 2, TotalSize := 2147483648\<rparr>, statB\<lparr>Count := 1, TotalSize := 536870912\<rparr>#}"
    by simp
  have p: "stdout (printSeriesMap scenarioEnv ?m emptyWorld)
      = [tableHeader
         @ (''Beta'' @ tab @ ''1'' @ tab @ ''0.50 GB'' @ tab @ nl)
         @ (''Alpha'' @ tab @ ''2'' @ tab @ ''2.00 GB'' @ tab @ nl),
         nl @ ''Total Series Found: 2'' @ nl]"
    unfolding printSeriesMap_scenario by (simp only: emptyWorld_def World.simps append_Nil)
  show ?thesis
    by (intro conjI) (rule sortFuncContract_scenario rangeContract_scenario t w g p)+
qed

section \<open>Requests and output of the commands\<close>

text \<open>
  The aggregation loops write nothing, and every request they add to the log is a
  \<^verbatim>\<open>GET\<close> or a \<^verbatim>\<open>HEAD\<close>.
\<close>

lemma readOnly_GET_HEAD [simp]:
  "readOnly \<lparr>Method = GET, URL = url, ClientTimeout = t\<rparr>"
  "readOnly \<lparr>Method = HEAD, URL = url, ClientTimeout = t\<rparr>"
  by (simp_all add: readOnly_def)

lemma sumEpisodes_world:
  "sumEpisodes env episodes stat w = (err, stat1, w1) \<Longrightarrow>
   stdout w1 = stdout w \<and> (\<exists>rs. requests w1 = requests w @ rs \<and> list_all readOnly rs)"
proof (induction episodes arbitrary: stat w)
  case Nil
  then show ?case by simp
next
  case (Cons episode episodes)
  let ?w = "w\<lparr>requests := requests w
                @ [\<lparr>Method = HEAD, URL = PlayURL episode, ClientTimeout = 5 * Second\<rparr>]\<rparr>"
  have g: "getEpisodeSize env (PlayURL episode) w
             = (fst (getEpisodeSize env (PlayURL episode) emptyWorld), ?w)"
    by (rule getEpisodeSize_world)
  show ?case
  proof (cases "fst (getEpisodeSize env (PlayURL episode) emptyWorld)")
    case (Inl e)
    with g Cons.prems have "w1 = ?w" by simp
    then show ?thesis by simp
  next
    case (Inr sz)
    with g Cons.prems have "sumEpisodes env episodes
        (stat\<lparr>Count := Count stat + 1, TotalSize := TotalSize stat + sz\<rparr>) ?w = (err, stat1, w1)"
      by simp
    from Cons.IH [OF this] show ?thesis by auto
  qed
qed

lemma aggregateURLs_world:
  "aggregateURLs env urls stat w = (err, stat1, w1) \<Longrightarrow>
   stdout w1 = stdout w \<and> (\<exists>rs. requests w1 = requests w @ rs \<and> list_all readOnly rs)"
proof (induction urls arbitrary: stat w)
  case Nil
  then show ?case by simp
next
  case (Cons url urls)
  let ?w = "w\<lparr>requests := requests w
                @ [\<lparr>Method = GET, URL = url, ClientTimeout = 5 * Second\<rparr>]\<rparr>"
  have g: "getEpisodes env url w = (fst (getEpisodes env url emptyWorld), ?w)"
    by (rule getEpisodes_world)
  show ?case
  proof (cases "fst (getEpisodes env url emptyWorld)")
    case (Inl e)
    with g Cons.prems have "w1 = ?w" by simp
    then show ?thesis by simp
  next
    case (Inr episodes)
    obtain e2 stat2 w2 where s: "sumEpisodes env episodes stat ?w = (e2, stat2, w2)"
      by (cases "sumEpisodes env episodes stat ?w")
    from sumEpisodes_world [OF s] obtain rs where rs:
      "stdout w2 = stdout w" "requests w2 = requests ?w @ rs" "list_all readOnly rs"
      by auto
    show ?thesis
    proof (cases e2)
      case (Some e)
      with g Inr s Cons.prems have "w1 = w2" by simp
      with rs show ?thesis by auto
    next
      case None
      with g Inr s Cons.prems have "aggregateURLs env urls stat2 w2 = (err, stat1, w1)"
        by simp
      from Cons.IH [OF this] rs show ?thesis by auto
    qed
  qed
qed

lemma aggregateStats_world:
  "aggregateStats env stat w = (err, stat1, w1) \<Longrightarrow>
   stdout w1 = stdout w \<and> (\<exists>rs. requests w1 = requests w @ rs \<and> list_all readOnly rs)"
  unfolding aggregateStats_def Let_def by (rule aggregateURLs_world)

lemma aggregateAll_world:
  "aggregateAll env entries oneMap w = (oneMap1, w1) \<Longrightarrow>
   stdout w1 = stdout w \<and> (\<exists>rs. requests w1 = requests w @ rs \<and> list_all readOnly rs)"
proof (induction entries arbitrary: oneMap w)
  case Nil
  then show ?case by simp
next
  case (Cons entry entries)
  obtain key stat where entry: "entry = (key, stat)" by (cases entry)
  obtain e stat2 w2 where a: "aggregateStats env stat w = (e, stat2, w2)"
    by (cases "aggregateStats env stat w")
  from aggregateStats_world [OF a] obtain rs where rs:
    "stdout w2 = stdout w" "requests w2 = requests w @ rs" "list_all readOnly rs"
    by auto
  from Cons.prems entry a
  have "aggregateAll env entries (AList.update key stat2 oneMap) w2 = (oneMap1, w1)"
    by simp
  from Cons.IH [OF this] rs show ?case by auto
qed

text \<open>The first loop of \<^verbatim>\<open>deleteSeries\<close>, by the recordings that match the prefix.\<close>

lemma matchLoop_one:
  "matchLoop title recordings [a] w =
     (case matching title recordings of
        [] \<Rightarrow> (Some [a], w)
      | m # _ \<Rightarrow> (None, writeOut (moreThanOneMessage title a m) w))"
  by (induction recordings) (simp_all add: matching_def moreThanOneMessage_def)

lemma matchLoop_none:
  "matchLoop title recordings [] w =
     (case matching title recordings of
        [] \<Rightarrow> (Some [], w)
      | [m] \<Rightarrow> (Some [m], w)
      | m1 # m2 # _ \<Rightarrow> (None, writeOut (moreThanOneMessage title m1 m2) w))"
proof (induction recordings)
  case Nil
  show ?case by (simp add: matching_def)
next
  case (Cons r recordings)
  show ?case
  proof (cases "prefix title (Recording.Title r)")
    case True
    then have "matchLoop title (r # recordings) [] w = matchLoop title recordings [r] w"
      by simp
    also have "\<dots> = (case matching title recordings of
        [] \<Rightarrow> (Some [r], w)
      | m # _ \<Rightarrow> (None, writeOut (moreThanOneMessage title r m) w))"
      by (rule matchLoop_one)
    finally show ?thesis using True
      by (simp add: matching_def split: list.split)
  next
    case False
    with Cons.IH show ?thesis by (simp add: matching_def)
  qed
qed

lemma getStorageUrlOrExit_world:
  "getStorageUrlOrExit env w = (out, w1) \<Longrightarrow>
   \<exists>rs. requests w1 = requests w @ rs \<and> list_all readOnly rs"
  by (auto simp: getStorageUrlOrExit_def getStorageUrl_cases Println_def writeOut_def
      discoverRequest_def split: sum.splits if_splits)

lemma deleteSeries_cases:
  assumes "getStorageUrlOrExit env w = (Return storageUrl, w1)"
    and "fetchRecordings env storageUrl w1 = (Inr recordings, w2)"
  shows "deleteSeries env title forever w =
           (case matching title recordings of
              [] \<Rightarrow> (Return (), writeOut (nothingMessage title) w2)
            | [m] \<Rightarrow>
                (Return (), snd (aggregateAll env (mapRange env (collectRecordings recordings)) [] w2))
            | m1 # m2 # _ \<Rightarrow> (Return (), writeOut (moreThanOneMessage title m1 m2) w2))"
  using assms
  by (simp add: deleteSeries_def matchLoop_none nothingMessage_def split: list.split prod.split)

lemma deleteSeries_world:
  assumes "deleteSeries env title forever w = (out, w1)"
  shows "\<exists>rs. requests w1 = requests w @ rs \<and> list_all readOnly rs"
proof -
  obtain o1 wa where g: "getStorageUrlOrExit env w = (o1, wa)"
    by (cases "getStorageUrlOrExit env w")
  from getStorageUrlOrExit_world [OF g] obtain ra where ra:
    "requests wa = requests w @ ra" "list_all readOnly ra"
    by auto
  show ?thesis
  proof (cases o1)
    case (Exit code)
    with g assms have "w1 = wa" by (simp add: deleteSeries_def)
    with ra show ?thesis by auto
  next
    case (Return storageUrl)
    let ?wb = "wa\<lparr>requests := requests wa
                 @ [\<lparr>Method = GET, URL = storageUrl, ClientTimeout = 0\<rparr>]\<rparr>"
    have f: "fetchRecordings env storageUrl wa
               = (fst (fetchRecordings env storageUrl emptyWorld), ?wb)"
      by (rule fetchRecordings_world)
    show ?thesis
    proof (cases "fst (fetchRecordings env storageUrl emptyWorld)")
      case (Inl e)
      with g Return f assms have "w1 = Println (''Error: '' @ errorMessage e) ?wb"
        by (simp add: deleteSeries_def)
      with ra show ?thesis by (auto simp: Println_def writeOut_def)
    next
      case (Inr recordings)
      with f have f': "fetchRecordings env storageUrl wa = (Inr recordings, ?wb)" by simp
      note d = deleteSeries_cases [OF g [unfolded Return] f', of title forever]
      obtain m1 wc where a:
        "aggregateAll env (mapRange env (collectRecordings recordings)) [] ?wb = (m1, wc)"
        by (cases "aggregateAll env (mapRange env (collectRecordings recordings)) [] ?wb")
      from aggregateAll_world [OF a] obtain rc where rc:
        "requests wc = requests ?wb @ rc" "list_all readOnly rc"
        by auto
      from d assms a have
        "w1 = writeOut (nothingMessage title) ?wb
         \<or> w1 = wc
         \<or> (\<exists>m1 m2. w1 = writeOut (moreThanOneMessage title m1 m2) ?wb)"
        by (auto split: list.splits)
      with ra rc show ?thesis by (auto simp: writeOut_def)
    qed
  qed
qed

text \<open>
  Claim C10. Every request that \<^verbatim>\<open>deleteSeries\<close> issues is a \<^verbatim>\<open>GET\<close> or a \<^verbatim>\<open>HEAD\<close>,
  for every prefix, flag and device. Once discovery has returned and the recordings have
  been fetched: when no recording's title starts with the prefix it writes that nothing
  matches and returns; when two or more do it writes the first two matching titles and
  returns; when exactly one does it runs the aggregation over all the series, writes
  nothing, and returns. In the first two cases it issues no further request.
\<close>

theorem C10_deleteSeries_only_reads:
  assumes "deleteSeries env title forever w = (out, w1)"
  shows "(\<exists>rs. requests w1 = requests w @ rs
              \<and> (\<forall>req \<in> set rs. Method req = GET \<or> Method req = HEAD))
       \<and> (\<forall>storageUrl wa recordings wb.
             getStorageUrlOrExit env w = (Return storageUrl, wa)
             \<and> fetchRecordings env storageUrl wa = (Inr recordings, wb)
             \<longrightarrow> out = Return ()
               \<and> (matching title recordings = []
                     \<longrightarrow> w1 = writeOut (nothingMessage title) wb)
               \<and> (\<forall>m1 m2 ms. matching title recordings = m1 # m2 # ms
                     \<longrightarrow> w1 = writeOut (moreThanOneMessage title m1 m2) wb)
               \<and> (\<forall>m. matching title recordings = [m]
                     \<longrightarrow> w1 = snd (aggregateAll env (mapRange env (collectRecordings recordings)) [] wb)
                       \<and> stdout w1 = stdout wb))"
proof (intro conjI allI impI)
  from deleteSeries_world [OF assms] obtain rs where
    "requests w1 = requests w @ rs" "list_all readOnly rs"
    by auto
  then show "\<exists>rs. requests w1 = requests w @ rs
              \<and> (\<forall>req \<in> set rs. Method req = GET \<or> Method req = HEAD)"
    by (auto simp: list_all_iff readOnly_def)
next
  fix storageUrl wa recordings wb
  assume h: "getStorageUrlOrExit env w = (Return storageUrl, wa)
             \<and> fetchRecordings env storageUrl wa = (Inr recordings, wb)"
  note d = deleteSeries_cases [OF conjunct1 [OF h] conjunct2 [OF h], of title forever]
  from d assms show "out = Return ()"
    by (auto split: list.splits)
  show "w1 = writeOut (nothingMessage title) wb" if "matching title recordings = []"
    using d assms that by simp
  show "w1 = writeOut (moreThanOneMessage title m1 m2) wb"
    if "matching title recordings = m1 # m2 # ms" for m1 m2 ms
    using d assms that by simp
  show "w1 = snd (aggregateAll env (mapRange env (collectRecordings recordings)) [] wb)"
    if "matching title recordings = [m]" for m
    using d assms that by simp
  show "stdout w1 = stdout wb" if m: "matching title recordings = [m]" for m
  proof -
    obtain m1 wc where a:
      "aggregateAll env (mapRange env (collectRecordings recordings)) [] wb = (m1, wc)"
      by (cases "aggregateAll env (mapRange env (collectRecordings recordings)) [] wb")
    from d assms m a have "w1 = wc" by simp
    with aggregateAll_world [OF a] show ?thesis by simp
  qed
qed

lemma getStorageUrlOrExit_device:
  assumes "roundTrip env discoverRequest = Inr (okResponse n ''discover'')"
    and "unmarshalDiscovery env = scenarioDiscovery"
  shows "getStorageUrlOrExit env emptyWorld =
     (Return ''http://10.0.0.5:80'', \<lparr>requests = [discoverRequest], stdout = [searchingLine]\<rparr>)"
  using assms
  by (simp add: getStorageUrlOrExit_def getStorageUrl_cases okResponse_def scenarioDiscovery_def
      emptyWorld_def Println_def writeOut_def searchingLine_def)

lemma discover_sizedDevice:
  "sizedDevice a1 a2 b1 discoverRequest = Inr (okResponse (- 1) ''discover'')"
  by (simp add: sizedDevice_def discoverRequest_def)

lemma getStorageUrlOrExit_scenario:
  "getStorageUrlOrExit scenarioEnv emptyWorld =
     (Return ''http://10.0.0.5:80'', \<lparr>requests = [discoverRequest], stdout = [searchingLine]\<rparr>)"
  by (rule getStorageUrlOrExit_device [where n = "- 1"])
     (simp_all add: scenarioEnv_def deviceEnv_def discover_sizedDevice)

lemma getStorageUrlOrExit_failing:
  "getStorageUrlOrExit failingEnv emptyWorld =
     (Return ''http://10.0.0.5:80'', \<lparr>requests = [discoverRequest], stdout = [searchingLine]\<rparr>)"
  by (rule getStorageUrlOrExit_device [where n = "- 1"])
     (simp_all add: failingEnv_def failingDevice_def deviceEnv_def discover_sizedDevice,
      simp add: discoverRequest_def)

lemma fetchRecordings_failing:
  "fst (fetchRecordings failingEnv ''http://10.0.0.5:80'' emptyWorld) = Inr scenarioRecordings"
  by (simp add: fetchRecordings_def http_Get_def DefaultClient_def Client_Get_def Client_Do_def
      Let_def failingEnv_def failingDevice_def scenario_defs)

lemma aggregateAll_failing:
  "aggregateAll failingEnv [(''A'', statA), (''B'', statB)] [] w =
     ([(''A'', statA\<lparr>Count := 1, TotalSize := 1073741824\<rparr>),
       (''B'', statB\<lparr>Count := 1, TotalSize := 536870912\<rparr>)],
      w\<lparr>requests := requests w @
         [timed GET ''/a1'', timed HEAD ''/play/a1'', timed GET ''/a2'',
          timed GET ''/b1'', timed HEAD ''/play/b1'']\<rparr>)"
  by (simp add: failingEnv_def failingDevice_def statA_def statB_def scenario_defs run_defs
      timed_def)

lemma sortedStats_failing:
  "sortedStats failingEnv
     [(''A'', statA\<lparr>Count := 1, TotalSize := 1073741824\<rparr>),
      (''B'', statB\<lparr>Count := 1, TotalSize := 536870912\<rparr>)]
   = [statB\<lparr>Count := 1, TotalSize := 536870912\<rparr>, statA\<lparr>Count := 1, TotalSize := 1073741824\<rparr>]"
  by (simp add: sortedStats_def failingEnv_def deviceEnv_def insertionSort_def cmpTotalSize_def
      statA_def statB_def)

lemma printSeriesMap_failing:
  "stdout (printSeriesMap failingEnv
     [(''A'', statA\<lparr>Count := 1, TotalSize := 1073741824\<rparr>),
      (''B'', statB\<lparr>Count := 1, TotalSize := 536870912\<rparr>)] w)
   = stdout w
     @ [tableHeader
        @ (''Beta'' @ tab @ ''1'' @ tab @ ''0.50 GB'' @ tab @ nl)
        @ (''Alpha'' @ tab @ ''1'' @ tab @ ''1.00 GB'' @ tab @ nl),
        nl @ ''Total Series Found: 2'' @ nl]"
proof -
  have t: "tabwriter failingEnv 0 0 3 CHR '' '' 0 buf = buf" for buf
    by (simp add: failingEnv_def deviceEnv_def)
  have a: "tableRow (statA\<lparr>Count := 1, TotalSize := 1073741824\<rparr>)
             = ''Alpha'' @ tab @ ''1'' @ tab @ ''1.00 GB'' @ tab @ nl"
    by (simp add: statA_def tableRow_eval Let_def showNat.simps)
  have b: "tableRow (statB\<lparr>Count := 1, TotalSize := 536870912\<rparr>)
             = ''Beta'' @ tab @ ''1'' @ tab @ ''0.50 GB'' @ tab @ nl"
    by (simp add: statB_def tableRow_eval Let_def showNat.simps)
  have n: "showNat (length [(''A'', statA\<lparr>Count := 1, TotalSize := 1073741824\<rparr>),
      (''B'', statB\<lparr>Count := 1, TotalSize := 536870912\<rparr>)]) = ''2''"
    by (simp add: showNat.simps)
  show ?thesis
    unfolding printSeriesMap_stdout sortedStats_failing t n
    by (simp add: a b)
qed

lemma listRecordings_Inr:
  assumes "fst (fetchRecordings env url emptyWorld) = Inr recordings"
  shows "listRecordings env url w =
           printSeriesMap env
             (fst (aggregateAll env (mapRange env (collectRecordings recordings)) []
                (w\<lparr>requests := requests w @ [\<lparr>Method = GET, URL = url, ClientTimeout = 0\<rparr>]\<rparr>)))
             (snd (aggregateAll env (mapRange env (collectRecordings recordings)) []
                (w\<lparr>requests := requests w @ [\<lparr>Method = GET, URL = url, ClientTimeout = 0\<rparr>]\<rparr>)))"
  unfolding listRecordings_def
  by (subst fetchRecordings_world) (simp add: assms Let_def split: prod.split)

lemma mapRange_failing: "mapRange failingEnv m = m"
  by (simp add: failingEnv_def deviceEnv_def)

lemma mapRange_scenario: "mapRange scenarioEnv m = m"
  by (simp add: scenarioEnv_def deviceEnv_def)

text \<open>
  Claim C1 fails on the code: \<^verbatim>\<open>listRecordings\<close> does not look at what
  \<^verbatim>\<open>aggregateStats\<close> returns. In the scenario with the episode list \<open>/a2\<close> answering
  status 500, aggregation of series A returns an error after one episode, and the run
  still writes the table, with the sums reached for series A, and no error message.
\<close>

theorem C1_table_printed_after_aggregation_error:
  "fst (aggregateStats failingEnv statA emptyWorld) = Some (Error ''/a2 returned status 500'')
   \<and> fst (mainList failingEnv emptyWorld) = Return ()
   \<and> stdout (snd (mainList failingEnv emptyWorld)) =
       [searchingLine,
        tableHeader
        @ (''Beta'' @ tab @ ''1'' @ tab @ ''0.50 GB'' @ tab @ nl)
        @ (''Alpha'' @ tab @ ''1'' @ tab @ ''1.00 GB'' @ tab @ nl),
        nl @ ''Total Series Found: 2'' @ nl]"
proof -
  have l: "stdout (listRecordings failingEnv ''http://10.0.0.5:80''
             \<lparr>requests = [discoverRequest], stdout = [searchingLine]\<rparr>) =
       [searchingLine,
        tableHeader
        @ (''Beta'' @ tab @ ''1'' @ tab @ ''0.50 GB'' @ tab @ nl)
        @ (''Alpha'' @ tab @ ''1'' @ tab @ ''1.00 GB'' @ tab @ nl),
        nl @ ''Total Series Found: 2'' @ nl]"
    unfolding listRecordings_Inr [OF fetchRecordings_failing] collectRecordings_scenario
      mapRange_failing aggregateAll_failing fst_conv snd_conv printSeriesMap_failing
    by simp
  show ?thesis
    by (simp add: mainList_def getStorageUrlOrExit_failing l aggregateStats_failingA)
qed

lemma aggregateAll_scenario_timed:
  "aggregateAll scenarioEnv [(''A'', statA), (''B'', statB)] [] w =
     ([(''A'', statA\<lparr>Count := 2, TotalSize := 2147483648\<rparr>),
       (''B'', statB\<lparr>Count := 1, TotalSize := 536870912\<rparr>)],
      w\<lparr>requests := requests w @
         [timed GET ''/a1'', timed HEAD ''/play/a1'', timed GET ''/a2'', timed HEAD ''/play/a2'',
          timed GET ''/b1'', timed HEAD ''/play/b1'']\<rparr>)"
  unfolding aggregateAll_scenario by (simp add: timed_def)

text \<open>
  Claim C8 fails on the code: \<^verbatim>\<open>fetchRecordings\<close> calls \<^verbatim>\<open>http.Get\<close>, which uses the
  default client, and the default client has no timeout. For every device and URL the
  request it issues carries the timeout zero; in the scenario of the specification it is
  the second of the eight requests of the \<^verbatim>\<open>list\<close> command, and the other seven carry
  five seconds.
\<close>

theorem C8_recordings_fetch_has_no_timeout:
  "requests (snd (fetchRecordings env recordingsUrl w))
     = requests w @ [\<lparr>Method = GET, URL = recordingsUrl, ClientTimeout = 0\<rparr>]
   \<and> requests (snd (mainList scenarioEnv emptyWorld)) =
       [timed GET ''http://hdhomerun.local/discover.json'',
        \<lparr>Method = GET, URL = ''http://10.0.0.5:80'', ClientTimeout = 0\<rparr>,
        timed GET ''/a1'', timed HEAD ''/play/a1'', timed GET ''/a2'', timed HEAD ''/play/a2'',
        timed GET ''/b1'', timed HEAD ''/play/b1'']
   \<and> ClientTimeout (timed GET ''/a1'') = 5000000000"
proof -
  have f: "requests (snd (fetchRecordings env recordingsUrl w))
     = requests w @ [\<lparr>Method = GET, URL = recordingsUrl, ClientTimeout = 0\<rparr>]"
    by (subst fetchRecordings_world) simp
  have l: "requests (listRecordings scenarioEnv ''http://10.0.0.5:80''
             \<lparr>requests = [discoverRequest], stdout = [searchingLine]\<rparr>) =
       [timed GET ''http://hdhomerun.local/discover.json'',
        \<lparr>Method = GET, URL = ''http://10.0.0.5:80'', ClientTimeout = 0\<rparr>,
        timed GET ''/a1'', timed HEAD ''/play/a1'', timed GET ''/a2'', timed HEAD ''/play/a2'',
        timed GET ''/b1'', timed HEAD ''/play/b1'']"
    unfolding listRecordings_Inr [OF fetchRecordings_scenario] collectRecordings_scenario
      mapRange_scenario aggregateAll_scenario_timed fst_conv snd_conv printSeriesMap_requests
    by (simp add: discoverRequest_def timed_def)
  have m: "requests (snd (mainList scenarioEnv emptyWorld)) =
       [timed GET ''http://hdhomerun.local/discover.json'',
        \<lparr>Method = GET, URL = ''http://10.0.0.5:80'', ClientTimeout = 0\<rparr>,
        timed GET ''/a1'', timed HEAD ''/play/a1'', timed GET ''/a2'', timed HEAD ''/play/a2'',
        timed GET ''/b1'', timed HEAD ''/play/b1'']"
    by (simp add: mainList_def getStorageUrlOrExit_scenario l)
  have t: "ClientTimeout (timed GET ''/a1'') = 5000000000"
    by (simp add: timed_def Second_def)
  from f m t show ?thesis by (intro conjI)
qed

lemma matching_scenario:
  "matching ''Beta'' scenarioRecordings = [scenarioRecordings ! 1]"
  "matching ''Al'' scenarioRecordings = [scenarioRecordings ! 0, scenarioRecordings ! 2]"
  "matching ''Gamma'' scenarioRecordings = []"
  by (simp_all add: matching_def scenarioRecordings_def)

lemma fetchRecordings_scenario_world:
  "fetchRecordings scenarioEnv ''http://10.0.0.5:80''
     \<lparr>requests = [discoverRequest], stdout = [searchingLine]\<rparr>
   = (Inr scenarioRecordings,
      \<lparr>requests = [discoverRequest, \<lparr>Method = GET, URL = ''http://10.0.0.5:80'', ClientTimeout = 0\<rparr>],
       stdout = [searchingLine]\<rparr>)"
  by (subst fetchRecordings_world) (simp add: fetchRecordings_scenario)

lemma deleteSeries_scenario_Beta:
  "deleteSeries scenarioEnv ''Beta'' True emptyWorld =
     (Return (),
      \<lparr>requests =
         [discoverRequest, \<lparr>Method = GET, URL = ''http://10.0.0.5:80'', ClientTimeout = 0\<rparr>,
          timed GET ''/a1'', timed HEAD ''/play/a1'', timed GET ''/a2'', timed HEAD ''/play/a2'',
          timed GET ''/b1'', timed HEAD ''/play/b1''],
       stdout = [searchingLine]\<rparr>)"
  unfolding deleteSeries_cases [OF getStorageUrlOrExit_scenario fetchRecordings_scenario_world]
    matching_scenario collectRecordings_scenario mapRange_scenario aggregateAll_scenario_timed
  by simp

lemma deleteSeries_scenario_Al:
  "deleteSeries scenarioEnv ''Al'' False emptyWorld =
     (Return (),
      \<lparr>requests =
         [discoverRequest, \<lparr>Method = GET, URL = ''http://10.0.0.5:80'', ClientTimeout = 0\<rparr>],
       stdout = [searchingLine,
                 ''More than one title matches '' @ quote @ ''Al'' @ quote @ '':'' @ nl
                 @ ''Alpha'' @ nl @ ''Alpha II'' @ nl]\<rparr>)"
  unfolding deleteSeries_cases [OF getStorageUrlOrExit_scenario fetchRecordings_scenario_world]
    matching_scenario
  by (simp add: writeOut_def moreThanOneMessage_def scenarioRecordings_def)

lemma deleteSeries_scenario_Gamma:
  "deleteSeries scenarioEnv ''Gamma'' False emptyWorld =
     (Return (),
      \<lparr>requests =
         [discoverRequest, \<lparr>Method = GET, URL = ''http://10.0.0.5:80'', ClientTimeout = 0\<rparr>],
       stdout = [searchingLine, ''Nothing matches '' @ quote @ ''Gamma'' @ quote @ nl]\<rparr>)"
  unfolding deleteSeries_cases [OF getStorageUrlOrExit_scenario fetchRecordings_scenario_world]
    matching_scenario
  by (simp add: writeOut_def nothingMessage_def)

theorem C10_deleteSeries_only_reads_witness:
  "deleteSeries scenarioEnv ''Beta'' True emptyWorld =
     (Return (),
      \<lparr>requests =
         [discoverRequest, \<lparr>Method = GET, URL = ''http://10.0.0.5:80'', ClientTimeout = 0\<rparr>,
          timed GET ''/a1'', timed HEAD ''/play/a1'', timed GET ''/a2'', timed HEAD ''/play/a2'',
          timed GET ''/b1'', timed HEAD ''/play/b1''],
       stdout = [searchingLine]\<rparr>)
   \<and> list_all readOnly (requests (snd (deleteSeries scenarioEnv ''Beta'' True emptyWorld)))
   \<and> snd (deleteSeries scenarioEnv ''Al'' False emptyWorld) =
       \<lparr>requests =
          [discoverRequest, \<lparr>Method = GET, URL = ''http://10.0.0.5:80'', ClientTimeout = 0\<rparr>],
        stdout = [searchingLine,
                  ''More than one title matches '' @ quote @ ''Al'' @ quote @ '':'' @ nl
                  @ ''Alpha'' @ nl @ ''Alpha II'' @ nl]\<rparr>
   \<and> snd (deleteSeries scenarioEnv ''Gamma'' False emptyWorld) =
       \<lparr>requests =
          [discoverRequest, \<lparr>Method = GET, URL = ''http://10.0.0.5:80'', ClientTimeout = 0\<rparr>],
        stdout = [searchingLine, ''Nothing matches '' @ quote @ ''Gamma'' @ quote @ nl]\<rparr>"
proof -
  from C10_deleteSeries_only_reads [OF deleteSeries_scenario_Beta]
  obtain rs where rs:
    "requests (snd (deleteSeries scenarioEnv ''Beta'' True emptyWorld)) = requests emptyWorld @ rs"
    "\<forall>req \<in> set rs. Method req = GET \<or> Method req = HEAD"
    unfolding deleteSeries_scenario_Beta snd_conv by blast
  then have r: "list_all readOnly (requests (snd (deleteSeries scenarioEnv ''Beta'' True emptyWorld)))"
    by (simp add: emptyWorld_def list_all_iff readOnly_def)
  have a: "snd (deleteSeries scenarioEnv ''Al'' False emptyWorld) =
       \<lparr>requests =
          [discoverRequest, \<lparr>Method = GET, URL = ''http://10.0.0.5:80'', ClientTimeout = 0\<rparr>],
        stdout = [searchingLine,
                  ''More than one title matches '' @ quote @ ''Al'' @ quote @ '':'' @ nl
                  @ ''Alpha'' @ nl @ ''Alpha II'' @ nl]\<rparr>"
    by (simp only: deleteSeries_scenario_Al snd_conv)
  have g: "snd (deleteSeries scenarioEnv ''Gamma'' False emptyWorld) =
       \<lparr>requests =
          [discoverRequest, \<lparr>Method = GET, URL = ''http://10.0.0.5:80'', ClientTimeout = 0\<rparr>],
        stdout = [searchingLine, ''Nothing matches '' @ quote @ ''Gamma'' @ quote @ nl]\<rparr>"
    by (simp only: deleteSeries_scenario_Gamma snd_conv)
  from deleteSeries_scenario_Beta r a g show ?thesis
    by (intro conjI)
qed

end
